theory Spec2Isabelle
  imports Complex_Main
begin

section \<open>Number model\<close>

text \<open>
  The program is JavaScript; every number in it is an IEEE double. This development
  models numbers by their exact values: samples, magnitudes, frequencies and filter
  coefficients are \<^typ>\<open>real\<close>, array indices, lengths and the sample rate are
  \<^typ>\<open>nat\<close>, millisecond timestamps and rounded BPM values are \<^typ>\<open>int\<close>.
  Rounding error, NaN and the infinities are outside the model; \<open>Math.round x\<close> is
  \<open>\<lfloor>x + 1/2\<rfloor>\<close>, which is HOL's \<^const>\<open>round\<close>. Where the source
  would produce NaN by dividing by zero, HOL's total division returns 0; each such
  place is marked at the definition.
\<close>

section \<open>FFT kernel (hbtest/js/fft.js)\<close>

record FFT =
  fft_size :: nat
  fft_reverse :: "nat list"
  cosTable :: "real list"
  sinTable :: "real list"

text \<open>
  \<open>reverseBits(num, bits)\<close>: the loop body \<open>result = (result << 1) | (num & 1); num >>= 1\<close>
  runs once for every integer \<open>i\<close> with \<open>0 \<le> i < bits\<close>. The shifted result has a
  zero low bit, so the bitwise or is an addition.
\<close>

fun reverseBits_loop :: "nat \<Rightarrow> nat \<Rightarrow> nat \<Rightarrow> nat" where
  "reverseBits_loop 0 num result = result"
| "reverseBits_loop (Suc k) num result =
     reverseBits_loop k (num div 2) (result * 2 + num mod 2)"

definition reverseBits :: "nat \<Rightarrow> real \<Rightarrow> nat" where
  "reverseBits num bits = reverseBits_loop (nat \<lceil>bits\<rceil>) num 0"

definition FFT_constructor :: "nat \<Rightarrow> FFT" where
  "FFT_constructor sz =
     \<lparr> fft_size = sz,
       fft_reverse = map (\<lambda>i. reverseBits i (log 2 (real sz))) [0..<sz],
       cosTable = map (\<lambda>i. cos (2 * pi * real i / real sz)) [0..<sz],
       sinTable = map (\<lambda>i. sin (2 * pi * real i / real sz)) [0..<sz] \<rparr>"

text \<open>
  One butterfly of \<open>fft(real, imag)\<close>: the body of the innermost loop, on the two
  output arrays. \<open>step = N / len\<close> and \<open>len / 2\<close> are exact in the source because
  \<open>N\<close> and \<open>len\<close> are powers of two (the only FFT built is \<open>new FFT(512)\<close>).
\<close>

definition butterfly ::
  "FFT \<Rightarrow> nat \<Rightarrow> nat \<Rightarrow> nat \<Rightarrow> real list \<times> real list \<Rightarrow> real list \<times> real list" where
  "butterfly f len i j outs =
     (case outs of (real_out, imag_out) \<Rightarrow>
        let step = fft_size f div len;
            half = len div 2;
            u = real_out ! (i + j);
            v = imag_out ! (i + j);
            w_real = cosTable f ! (step * j);
            w_imag = - (sinTable f ! (step * j));
            t_real = real_out ! (i + j + half) * w_real - imag_out ! (i + j + half) * w_imag;
            t_imag = real_out ! (i + j + half) * w_imag + imag_out ! (i + j + half) * w_real
        in (real_out[i + j := u + t_real, i + j + half := u - t_real],
            imag_out[i + j := v + t_imag, i + j + half := v - t_imag]))"

text \<open>
  \<open>fft(real, imag)\<close>: bit-reversal copy, then the three nested loops. \<open>len\<close> runs over
  2, 4, 8, ... while \<open>len \<le> N\<close>; \<open>i\<close> over the multiples of \<open>len\<close> below \<open>N\<close>;
  \<open>j\<close> over \<open>0 .. len/2 - 1\<close>.
\<close>

definition FFT_fft :: "FFT \<Rightarrow> real list \<Rightarrow> real list \<Rightarrow> real list \<times> real list" where
  "FFT_fft f re im =
     (let N = fft_size f;
          real_out = map (\<lambda>i. re ! (fft_reverse f ! i)) [0..<N];
          imag_out = map (\<lambda>i. im ! (fft_reverse f ! i)) [0..<N];
          lens = takeWhile (\<lambda>len. len \<le> N) (map (\<lambda>k. 2 ^ k) [1..<N + 1])
      in foldl (\<lambda>outs len.
            foldl (\<lambda>outs i.
               foldl (\<lambda>outs j. butterfly f len i j outs) outs [0..<len div 2])
              outs (filter (\<lambda>i. i mod len = 0) [0..<N]))
          (real_out, imag_out) lens)"

definition FFT_magnitude :: "real list \<Rightarrow> real list \<Rightarrow> real list" where
  "FFT_magnitude re im =
     map (\<lambda>i. sqrt (re ! i * re ! i + im ! i * im ! i)) [0..<length re]"

section \<open>Signal chain (class SignalProcessor)\<close>

record SignalProcessor =
  sampleRate :: nat
  bufferSize :: nat
  signalBuffer :: "real list"
  fft :: FFT
  lowPassAlpha :: real
  highPassAlpha :: real
  lastRawValue :: real
  lastFilteredValue :: real
  motionRobustBuffer :: "real list"
  signatureVector :: "real \<times> real \<times> real"
  adaptiveThreshold :: real
  motionDetectionWindow :: nat

definition SignalProcessor_constructor :: "nat \<Rightarrow> SignalProcessor" where
  "SignalProcessor_constructor rate =
     \<lparr> sampleRate = rate,
       bufferSize = rate * 15,
       signalBuffer = [],
       fft = FFT_constructor 512,
       lowPassAlpha = 3 / 10,
       highPassAlpha = 95 / 100,
       lastRawValue = 0,
       lastFilteredValue = 0,
       motionRobustBuffer = [],
       signatureVector = (77 / 100, 51 / 100, 34 / 100),
       adaptiveThreshold = 3 / 10,
       motionDetectionWindow = 15 \<rparr>"

definition reset :: "SignalProcessor \<Rightarrow> SignalProcessor" where
  "reset s =
     s\<lparr> signalBuffer := [],
        motionRobustBuffer := [],
        lastRawValue := 0,
        lastFilteredValue := 0,
        adaptiveThreshold := 7 / 10,
        lowPassAlpha := 15 / 100,
        highPassAlpha := 98 / 100 \<rparr>"

text \<open>
  \<open>bandPassFilter(signal)\<close>. The high-pass loop carries the previous output and the
  previous input; the low-pass loop runs in place over the high-passed array, so it
  carries the previous (already low-passed) output. On an empty signal the source
  returns a one-element array holding \<open>undefined\<close>; the only caller passes at least
  30 samples, and the model returns the empty list there.
\<close>

fun highPass_loop :: "real \<Rightarrow> real \<Rightarrow> real \<Rightarrow> real list \<Rightarrow> real list" where
  "highPass_loop hp prev_out prev_in [] = []"
| "highPass_loop hp prev_out prev_in (x # xs) =
     (let y = hp * (prev_out + x - prev_in) in y # highPass_loop hp y x xs)"

fun lowPass_loop :: "real \<Rightarrow> real \<Rightarrow> real list \<Rightarrow> real list" where
  "lowPass_loop lp prev_out [] = []"
| "lowPass_loop lp prev_out (y # ys) =
     (let z = lp * y + (1 - lp) * prev_out in z # lowPass_loop lp z ys)"

definition bandPassFilter :: "SignalProcessor \<Rightarrow> real list \<Rightarrow> real list" where
  "bandPassFilter s signal =
     (case signal of
        [] \<Rightarrow> []
      | x0 # xs \<Rightarrow> x0 # lowPass_loop (lowPassAlpha s) x0 (highPass_loop (highPassAlpha s) x0 x0 xs))"

text \<open>
  \<open>movingAverage(signal, windowSize)\<close>. The inner loop runs \<open>j\<close> from
  \<open>Math.max(0, i - windowSize + 1)\<close> to \<open>i\<close> and accumulates \<open>sum\<close> and \<open>count\<close>.
  With \<open>windowSize = 0\<close> the source divides 0 by 0 (NaN); HOL gives 0 there.
\<close>

definition movingAverage :: "real list \<Rightarrow> nat \<Rightarrow> real list" where
  "movingAverage signal windowSize =
     map (\<lambda>i.
        let start = nat (max 0 (int i - int windowSize + 1));
            (total, count) =
               foldl (\<lambda>(total, count) j. (total + signal ! j, count + 1)) (0, 0 :: nat) [start..<i + 1]
        in total / real count)
       [0..<length signal]"

text \<open>
  \<open>removeOutliers(signal, threshold = 2)\<close>. \<open>signalMean\<close> and \<open>signalStd\<close> are its
  locals \<open>mean\<close> and \<open>std\<close>; \<open>reduce\<close> is a left fold from 0. On the empty signal
  the source computes NaN statistics and returns the empty array; the model returns the
  empty list as well.
\<close>

definition signalMean :: "real list \<Rightarrow> real" where
  "signalMean signal = foldl (\<lambda>total val. total + val) 0 signal / real (length signal)"

definition signalStd :: "real list \<Rightarrow> real" where
  "signalStd signal =
     sqrt (foldl (\<lambda>total val. total + (val - signalMean signal) ^ 2) 0 signal / real (length signal))"

definition removeOutliers :: "real list \<Rightarrow> real \<Rightarrow> real list" where
  "removeOutliers signal threshold =
     map (\<lambda>val. if \<bar>val - signalMean signal\<bar> > threshold * signalStd signal
                then signalMean signal else val) signal"

definition updateMotionRobustBuffer :: "real \<Rightarrow> SignalProcessor \<Rightarrow> SignalProcessor" where
  "updateMotionRobustBuffer v s =
     (let pushed = motionRobustBuffer s @ [v]
      in s\<lparr> motionRobustBuffer :=
              (if length pushed > motionDetectionWindow s * sampleRate s then tl pushed else pushed) \<rparr>)"

definition addDataPoint :: "real \<Rightarrow> SignalProcessor \<Rightarrow> SignalProcessor" where
  "addDataPoint v s =
     (let pushed = signalBuffer s @ [v]
      in updateMotionRobustBuffer v
           (s\<lparr> signalBuffer := (if length pushed > bufferSize s then tl pushed else pushed) \<rparr>))"

definition calculateVariance :: "real list \<Rightarrow> real" where
  "calculateVariance data =
     (let mean = foldl (\<lambda>total val. total + val) 0 data / real (length data)
      in foldl (\<lambda>total val. total + (val - mean) ^ 2) 0 data / real (length data))"

text \<open>
  The window loops \<open>for (let i = 0; i <= length - windowSize; i += windowSize)\<close>:
  the start indices \<open>0, windowSize, 2 * windowSize, ...\<close> up to \<open>length - windowSize\<close>.
  With \<open>windowSize = 0\<close> the source loop never ends; the model is meant for a positive
  window (the sample rate is 30 in every processor the program builds).
\<close>

definition windowStarts :: "nat \<Rightarrow> nat \<Rightarrow> nat list" where
  "windowStarts len windowSize =
     (if windowSize \<le> len then map (\<lambda>k. k * windowSize) [0..<(len - windowSize) div windowSize + 1]
      else [])"

definition windowVariances :: "real list \<Rightarrow> nat \<Rightarrow> real list" where
  "windowVariances buf windowSize =
     map (\<lambda>i. calculateVariance (take windowSize (drop i buf))) (windowStarts (length buf) windowSize)"

definition detectMotionArtifacts :: "SignalProcessor \<Rightarrow> bool" where
  "detectMotionArtifacts s =
     (if length (motionRobustBuffer s) < motionDetectionWindow s then False
      else
        let windows = windowVariances (motionRobustBuffer s) (sampleRate s)
        in if length windows < 2 then False
           else
             let varianceChange = calculateVariance windows;
                 avgVariance = foldl (\<lambda>total val. total + val) 0 windows / real (length windows)
             in varianceChange > avgVariance * (15 / 10))"

definition adaptiveSignalProcessing ::
  "real list \<Rightarrow> SignalProcessor \<Rightarrow> real list \<times> SignalProcessor" where
  "adaptiveSignalProcessing signal s =
     (let hasMotion = detectMotionArtifacts s
      in if hasMotion
         then (movingAverage signal 8, s\<lparr> lowPassAlpha := 1 / 10, highPassAlpha := 99 / 100 \<rparr>)
         else (movingAverage signal 5, s\<lparr> lowPassAlpha := 15 / 100, highPassAlpha := 98 / 100 \<rparr>))"

text \<open>
  \<open>getProcessedSignal()\<close>: \<open>None\<close> is the source's \<open>null\<close>. The calls are in the
  source's order: outlier removal, band-pass with the coefficients stored on the
  component, then the adaptive step, which detects motion, stores new coefficients and
  smooths.
\<close>

definition getProcessedSignal :: "SignalProcessor \<Rightarrow> real list option \<times> SignalProcessor" where
  "getProcessedSignal s =
     (if length (signalBuffer s) < 30 then (None, s)
      else
        let signal0 = signalBuffer s;
            signal1 = removeOutliers signal0 2;
            signal2 = bandPassFilter s signal1;
            (signal3, s') = adaptiveSignalProcessing signal2 s
        in (Some signal3, s'))"

section \<open>Spectral estimator (class SignalProcessor, continued)\<close>

record Peak =
  peak_index :: nat
  peak_value :: real
  peak_frequency :: real
  peak_sharpness :: real

text \<open>
  \<open>calculatePeakSharpness(magnitude, peakIndex)\<close>: the mean of
  \<open>peakValue - magnitude[i]\<close> over the up to six neighbours within three bins.
\<close>

definition calculatePeakSharpness :: "real list \<Rightarrow> nat \<Rightarrow> real" where
  "calculatePeakSharpness magnitude peakIndex =
     (let windowSize = 3;
          start = nat (max 0 (int peakIndex - int windowSize));
          end_index = min (length magnitude) (peakIndex + windowSize + 1);
          peakValue = magnitude ! peakIndex;
          (sumDiff, count) =
             foldl (\<lambda>(sumDiff, count) i.
                      if i \<noteq> peakIndex then (sumDiff + (peakValue - magnitude ! i), count + 1)
                      else (sumDiff, count))
                   (0, 0 :: nat) [start..<end_index]
      in if count > 0 then sumDiff / real count else 0)"

text \<open>
  The peak loop of \<open>findRobustPeakFrequency\<close>:
  \<open>for (let i = minIndex + 1; i < maxIndex - 1 && i < magnitude.length / 2; i++)\<close>.
  Every index read (\<open>i - 1\<close>, \<open>i\<close>, \<open>i + 1\<close>) is inside the array, because
  \<open>1 \<le> i < length / 2\<close>. For \<open>maxIndex = 0\<close> the source bound \<open>maxIndex - 1\<close> is
  \<open>-1\<close> and the truncated difference is 0: the loop is empty either way.
\<close>

definition detectPeaks :: "real list \<Rightarrow> nat \<Rightarrow> nat \<Rightarrow> nat \<Rightarrow> Peak list" where
  "detectPeaks magnitude rate minIndex maxIndex =
     concat (map (\<lambda>i.
        if magnitude ! i > magnitude ! (i - 1) \<and> magnitude ! i > magnitude ! (i + 1)
        then [\<lparr> peak_index = i,
                peak_value = magnitude ! i,
                peak_frequency = real i * real rate / real (length magnitude),
                peak_sharpness = calculatePeakSharpness magnitude i \<rparr>]
        else [])
       (takeWhile (\<lambda>i. real i < real (length magnitude) / 2) [minIndex + 1..<maxIndex - 1]))"

text \<open>
  \<open>peaks.sort((a, b) => scoreB - scoreA)\<close> with \<open>score = value * (1 + sharpness)\<close>:
  descending by score. \<open>Array.prototype.sort\<close> is stable, and so is insertion sort by
  key (\<^const>\<open>sort_key\<close>): peaks of equal score keep their index order.
\<close>

definition peakScore :: "Peak \<Rightarrow> real" where
  "peakScore p = peak_value p * (1 + peak_sharpness p)"

definition sortPeaks :: "Peak list \<Rightarrow> Peak list" where
  "sortPeaks peaks = sort_key (\<lambda>p. - peakScore p) peaks"

text \<open>
  The two \<open>peaks.find(...)\<close> calls of the octave correction, on the sorted list whose
  head is \<open>bestPeak\<close>: the first peak of the list strictly within 0.1 Hz of twice
  (half) the best frequency; \<open>None\<close> is \<open>undefined\<close>.
\<close>

definition doubleFreqPeak :: "Peak list \<Rightarrow> Peak option" where
  "doubleFreqPeak peaks =
     find (\<lambda>peak. \<bar>peak_frequency peak - peak_frequency (hd peaks) * 2\<bar> < 1 / 10) peaks"

definition halfFreqPeak :: "Peak list \<Rightarrow> Peak option" where
  "halfFreqPeak peaks =
     find (\<lambda>peak. \<bar>peak_frequency peak - peak_frequency (hd peaks) / 2\<bar> < 1 / 10) peaks"

text \<open>
  The octave correction (the last part of \<open>findRobustPeakFrequency\<close>, from the
  double-frequency check to the final return), on the sorted, non-empty peak list.
\<close>

definition octaveCorrection :: "Peak list \<Rightarrow> real" where
  "octaveCorrection peaks =
     (let bestPeak = hd peaks;
          dbl = doubleFreqPeak peaks
      in if dbl \<noteq> None \<and> peak_value (the dbl) > peak_value bestPeak * (7 / 10)
         then peak_frequency (the dbl)
         else
           let half = halfFreqPeak peaks
           in if half \<noteq> None \<and> peak_value (the half) > peak_value bestPeak * (5 / 10)
              then (let bestBPM = peak_frequency bestPeak * 60;
                        halfBPM = peak_frequency (the half) * 60
                    in if bestBPM > 120 \<and> halfBPM \<ge> 50 \<and> halfBPM \<le> 120
                       then peak_frequency (the half) else peak_frequency bestPeak)
              else peak_frequency bestPeak)"

text \<open>
  \<open>findRobustPeakFrequency(magnitude, sampleRate)\<close>. The result 0 is the source's
  "no peak" value. \<open>bandIndices\<close> computes its locals \<open>minIndex\<close> and \<open>maxIndex\<close>,
  \<open>avgMagnitude\<close> its local of that name. \<open>magnitude.slice(minIndex, maxIndex)\<close> is
  \<open>take (maxIndex - minIndex) (drop minIndex magnitude)\<close>; the sum is divided by
  \<open>maxIndex - minIndex\<close>, which is positive whenever a peak was found.
\<close>

definition bandIndices :: "real list \<Rightarrow> nat \<Rightarrow> nat \<times> nat" where
  "bandIndices magnitude rate =
     (let minFreq = 7 / 10;
          maxFreq = 35 / 10
      in (nat \<lfloor>minFreq * real (length magnitude) / real rate\<rfloor>,
          nat \<lfloor>maxFreq * real (length magnitude) / real rate\<rfloor>))"

definition avgMagnitude :: "real list \<Rightarrow> nat \<Rightarrow> nat \<Rightarrow> real" where
  "avgMagnitude magnitude minIndex maxIndex =
     foldl (\<lambda>total val. total + val) 0 (take (maxIndex - minIndex) (drop minIndex magnitude))
       / (real maxIndex - real minIndex)"

definition findRobustPeakFrequency :: "SignalProcessor \<Rightarrow> real list \<Rightarrow> nat \<Rightarrow> real" where
  "findRobustPeakFrequency s magnitude rate =
     (let (minIndex, maxIndex) = bandIndices magnitude rate;
          peaks = detectPeaks magnitude rate minIndex maxIndex
      in if length peaks = 0 then 0
         else
           let sorted_peaks = sortPeaks peaks;
               bestPeak = hd sorted_peaks;
               significanceThreshold = adaptiveThreshold s
           in if peak_value bestPeak
                   < avgMagnitude magnitude minIndex maxIndex * (15 / 10 + significanceThreshold)
              then 0
              else octaveCorrection sorted_peaks)"

definition applyHanningWindow :: "real list \<Rightarrow> real list" where
  "applyHanningWindow signal =
     map (\<lambda>i. signal ! i * (5 / 10 * (1 - cos (2 * pi * real i / (real (length signal) - 1)))))
       [0..<length signal]"

text \<open>
  The BPM decision of \<open>calculateHeartRate\<close> (from \<open>let bpm = peakFrequency * 60\<close> to the
  end of the function): the two range corrections in sequence, then the acceptance
  check on the unrounded value and \<open>Math.round\<close>.
\<close>

definition bpmFromPeakFrequency :: "real \<Rightarrow> int option" where
  "bpmFromPeakFrequency peakFrequency =
     (let bpm0 = peakFrequency * 60;
          bpm1 = (if bpm0 < 50 \<and> bpm0 \<ge> 25
                  then (let correctedBPM = bpm0 * 2
                        in if correctedBPM \<ge> 50 \<and> correctedBPM \<le> 200 then correctedBPM else bpm0)
                  else bpm0);
          bpm2 = (if bpm1 > 150 \<and> bpm1 \<le> 400
                  then (let correctedBPM = bpm1 / 2
                        in if correctedBPM \<ge> 50 \<and> correctedBPM \<le> 150 then correctedBPM else bpm1)
                  else bpm1)
      in if bpm2 \<ge> 40 \<and> bpm2 \<le> 220 then Some (round bpm2) else None)"

text \<open>
  The spectrum of \<open>calculateHeartRate\<close>: the last \<open>min(512, length)\<close> samples, zero
  padded to 512, Hanning window, FFT, magnitude.
\<close>

definition magnitudeSpectrum :: "SignalProcessor \<Rightarrow> real list \<Rightarrow> real list" where
  "magnitudeSpectrum s signal =
     (let fftSize = 512;
          imag = replicate fftSize 0;
          startIndex = nat (max 0 (int (length signal) - int fftSize));
          re = map (\<lambda>i. if i < min fftSize (length signal) then signal ! (startIndex + i) else 0)
                 [0..<fftSize];
          windowed = applyHanningWindow re;
          (fft_real, fft_imag) = FFT_fft (fft s) windowed imag
      in FFT_magnitude fft_real fft_imag)"

definition calculateHeartRate :: "SignalProcessor \<Rightarrow> int option \<times> SignalProcessor" where
  "calculateHeartRate s =
     (let (processed, s') = getProcessedSignal s
      in case processed of
           None \<Rightarrow> (None, s')
         | Some signal \<Rightarrow>
             if length signal < 90 then (None, s')
             else
               let magnitude = magnitudeSpectrum s' signal;
                   peakFrequency = findRobustPeakFrequency s' magnitude (sampleRate s')
               in (bpmFromPeakFrequency peakFrequency, s'))"

text \<open>
  \<open>getSignalQuality()\<close> writes to the processor only through its call of
  \<open>getProcessedSignal()\<close>, made when the buffer holds at least 30 samples; the label
  it computes goes to the user interface and is not modelled.
\<close>

definition getSignalQuality_state :: "SignalProcessor \<Rightarrow> SignalProcessor" where
  "getSignalQuality_state s =
     (if length (signalBuffer s) < 30 then s else snd (getProcessedSignal s))"

section \<open>Calibration and display (class HeartRateDetector)\<close>

text \<open>
  The detector's history records \<open>{value, timestamp}\<close>; the field \<open>value\<close> is named
  \<open>rec_value\<close> here. What \<open>updateHeartRate\<close> writes to the heart-rate element is a
  \<open>Display\<close>: the calibration progress, a number of BPM, or the placeholder
  \<open>-- BPM\<close>.
\<close>

record HeartRateRecord =
  rec_value :: int
  timestamp :: int

datatype Display = Calibrating int | Bpm int | Unavailable

record HeartRateDetector =
  isDetecting :: bool
  signalProcessor :: SignalProcessor
  frameCount :: nat
  heartRateHistory :: "HeartRateRecord list"
  calibrationStartTime :: "int option"
  isCalibrating :: bool

text \<open>
  \<open>calibrationPeriod\<close> and \<open>displayDelay\<close> are set in the constructor and never
  assigned again: constants.
\<close>

definition calibrationPeriod :: int where
  "calibrationPeriod = 15000"

definition displayDelay :: int where
  "displayDelay = 5000"

definition HeartRateDetector_constructor :: HeartRateDetector where
  "HeartRateDetector_constructor =
     \<lparr> isDetecting = False,
       signalProcessor = SignalProcessor_constructor 30,
       frameCount = 0,
       heartRateHistory = [],
       calibrationStartTime = None,
       isCalibrating = False \<rparr>"

text \<open>\<open>startDetection()\<close>; \<open>now\<close> is the value \<open>Date.now()\<close> returns in it.\<close>

definition startDetection :: "int \<Rightarrow> HeartRateDetector \<Rightarrow> HeartRateDetector" where
  "startDetection now d =
     (if isDetecting d then d
      else d\<lparr> isDetecting := True,
              signalProcessor := reset (signalProcessor d),
              frameCount := 0,
              heartRateHistory := [],
              calibrationStartTime := Some now,
              isCalibrating := True \<rparr>)"

definition stopDetection :: "HeartRateDetector \<Rightarrow> HeartRateDetector" where
  "stopDetection d = (if \<not> isDetecting d then d else d\<lparr> isDetecting := False \<rparr>)"

text \<open>
  \<open>getStableHeartRate(targetTime)\<close>: \<open>None\<close> is \<open>null\<close>.
\<close>

definition getStableHeartRate :: "int \<Rightarrow> HeartRateDetector \<Rightarrow> int option" where
  "getStableHeartRate targetTime d =
     (let timeWindow = 2000;
          relevantRecords = filter (\<lambda>r. \<bar>timestamp r - targetTime\<bar> < timeWindow) (heartRateHistory d)
      in if length relevantRecords = 0 then None
         else
           let vals = map (\<lambda>r. real_of_int (rec_value r)) relevantRecords;
               avgHeartRate = foldl (\<lambda>total val. total + val) 0 vals / real (length vals);
               variance = foldl (\<lambda>total val. total + (val - avgHeartRate) ^ 2) 0 vals / real (length vals);
               stdDev = sqrt variance
           in if stdDev > 15 then None else Some (round avgHeartRate))"

text \<open>
  \<open>getDelayedHeartRate(currentTime)\<close>. The search loop keeps \<open>bestRecord\<close> and
  \<open>minTimeDiff\<close>; their initial values \<open>null\<close> and \<open>Infinity\<close> are the state \<open>None\<close>.
\<close>

definition nearestRecord :: "int \<Rightarrow> HeartRateRecord list \<Rightarrow> (HeartRateRecord \<times> int) option" where
  "nearestRecord targetTime history =
     foldl (\<lambda>best r.
              let timeDiff = \<bar>timestamp r - targetTime\<bar>
              in case best of
                   None \<Rightarrow> Some (r, timeDiff)
                 | Some (bestRecord, minTimeDiff) \<Rightarrow>
                     if timeDiff < minTimeDiff then Some (r, timeDiff) else best)
           None history"

definition getDelayedHeartRate :: "int \<Rightarrow> HeartRateDetector \<Rightarrow> int option" where
  "getDelayedHeartRate currentTime d =
     (let targetTime = currentTime - displayDelay
      in case nearestRecord targetTime (heartRateHistory d) of
           Some (bestRecord, minTimeDiff) \<Rightarrow>
             if minTimeDiff < 2000 then getStableHeartRate targetTime d else None
         | None \<Rightarrow> None)"

text \<open>
  \<open>updateHeartRate()\<close>; \<open>currentTime\<close> is the value of \<open>Date.now()\<close>. The tests
  \<open>if (heartRate)\<close> and \<open>if (delayedHeartRate)\<close> are JavaScript truthiness: neither
  \<open>null\<close> nor 0. A \<open>null\<close> start time counts as 0 in the subtraction.
\<close>

definition truthy :: "int option \<Rightarrow> bool" where
  "truthy v = (case v of None \<Rightarrow> False | Some n \<Rightarrow> n \<noteq> 0)"

definition updateHeartRate :: "int \<Rightarrow> HeartRateDetector \<Rightarrow> Display \<times> HeartRateDetector" where
  "updateHeartRate currentTime d =
     (let (heartRate, sp) = calculateHeartRate (signalProcessor d);
          d1 = d\<lparr> signalProcessor := sp \<rparr>;
          d2 = (if truthy heartRate
                then d1\<lparr> heartRateHistory :=
                          filter (\<lambda>r. currentTime - timestamp r < calibrationPeriod + displayDelay)
                            (heartRateHistory d1 @ [\<lparr> rec_value = the heartRate, timestamp = currentTime \<rparr>]) \<rparr>
                else d1);
          startTime = (case calibrationStartTime d2 of None \<Rightarrow> 0 | Some t \<Rightarrow> t);
          d3 = (if isCalibrating d2 \<and> currentTime - startTime \<ge> calibrationPeriod
                then d2\<lparr> isCalibrating := False \<rparr> else d2)
      in if isCalibrating d3
         then (Calibrating \<lfloor>real_of_int (currentTime - startTime) / real_of_int calibrationPeriod * 100\<rfloor>, d3)
         else
           let delayedHeartRate = getDelayedHeartRate currentTime d3
           in if truthy delayedHeartRate then (Bpm (the delayedHeartRate), d3)
              else (Unavailable, d3))"

text \<open>
  \<open>processFrame()\<close>, as far as the estimator is concerned. The camera and the face
  detector are outside the model: \<open>ready\<close> says whether the video had a frame,
  \<open>sample\<close> is the value the ROI extraction produced (\<open>None\<close> when there was no face,
  no region or no valid pixel). The result is what the call wrote to the heart-rate
  element, if anything.
\<close>

definition processFrame ::
  "bool \<Rightarrow> int \<Rightarrow> real option \<Rightarrow> HeartRateDetector \<Rightarrow> Display option \<times> HeartRateDetector" where
  "processFrame ready now sample d =
     (if \<not> ready then (None, d)
      else
        let d1 = d\<lparr> frameCount := frameCount d + 1 \<rparr>;
            (shown, d2) =
               (case sample of
                  None \<Rightarrow> (None, d1)
                | Some rgbValue \<Rightarrow>
                    let d' = d1\<lparr> signalProcessor := addDataPoint rgbValue (signalProcessor d1) \<rparr>;
                        (disp, d'') = updateHeartRate now d'
                    in (Some disp, d''))
        in (shown, d2\<lparr> signalProcessor := getSignalQuality_state (signalProcessor d2) \<rparr>))"

text \<open>
  A session after \<open>startDetection\<close>: the timer calls \<open>processFrame\<close> once per tick.
  A tick is \<open>(ready, now, sample)\<close>; the result lists what each tick displayed.
\<close>

fun runFrames :: "(bool \<times> int \<times> real option) list \<Rightarrow> HeartRateDetector \<Rightarrow> Display option list" where
  "runFrames [] d = []"
| "runFrames ((ready, now, sample) # ticks) d =
     (let (shown, d') = processFrame ready now sample d in shown # runFrames ticks d')"

text \<open>The detector after the ticks of a session.\<close>

fun sessionState :: "(bool \<times> int \<times> real option) list \<Rightarrow> HeartRateDetector \<Rightarrow> HeartRateDetector" where
  "sessionState [] d = d"
| "sessionState ((ready, now, sample) # ticks) d = sessionState ticks (snd (processFrame ready now sample d))"

section \<open>The specification's wording, for comparison\<close>

text \<open>
  The range-based rescue and the acceptance as the specification words them: a value in
  \<open>[25, 50)\<close> is doubled when the double lies in \<open>[50, 200]\<close>, a value in
  \<open>(150, 400]\<close> is halved when the half lies in \<open>[50, 150]\<close>; the result is
  rounded and returned iff the rounded value lies in \<open>[40, 220]\<close>.
\<close>

definition claimed_rescue :: "real \<Rightarrow> real" where
  "claimed_rescue bpm =
     (if 25 \<le> bpm \<and> bpm < 50 then (if 50 \<le> 2 * bpm \<and> 2 * bpm \<le> 200 then 2 * bpm else bpm)
      else if 150 < bpm \<and> bpm \<le> 400 then (if 50 \<le> bpm / 2 \<and> bpm / 2 \<le> 150 then bpm / 2 else bpm)
      else bpm)"

definition claimed_bpm_decision :: "real \<Rightarrow> int option" where
  "claimed_bpm_decision f =
     (let n = round (claimed_rescue (60 * f)) in if 40 \<le> n \<and> n \<le> 220 then Some n else None)"

text \<open>
  The octave correction as the specification words it, as a relation between the sorted
  peak list (best peak first) and the returned frequency \<open>r\<close>: if some peak within
  0.1 Hz of twice the best frequency has at least 0.7 of the best magnitude, \<open>r\<close> is the
  frequency of such a peak; otherwise, if some peak within 0.1 Hz of half the best
  frequency has at least 0.5 of the best magnitude, \<open>60 f\<^sub>b\<^sub>e\<^sub>s\<^sub>t > 120\<close> and
  \<open>60 (f\<^sub>b\<^sub>e\<^sub>s\<^sub>t / 2)\<close> lies in \<open>[50, 120]\<close>, \<open>r\<close> is the frequency of such a
  peak; otherwise \<open>r\<close> is the best frequency.
\<close>

definition claimed_octave_result :: "Peak list \<Rightarrow> real \<Rightarrow> bool" where
  "claimed_octave_result peaks r =
     (let best = hd peaks;
          doubles = filter (\<lambda>p. \<bar>peak_frequency p - 2 * peak_frequency best\<bar> \<le> 1 / 10
                              \<and> peak_value p \<ge> 7 / 10 * peak_value best) peaks;
          halves = filter (\<lambda>p. \<bar>peak_frequency p - peak_frequency best / 2\<bar> \<le> 1 / 10
                             \<and> peak_value p \<ge> 5 / 10 * peak_value best) peaks
      in if doubles \<noteq> [] then r \<in> peak_frequency ` set doubles
         else if halves \<noteq> [] \<and> 60 * peak_frequency best > 120
                 \<and> 50 \<le> 60 * (peak_frequency best / 2) \<and> 60 * (peak_frequency best / 2) \<le> 120
              then r \<in> peak_frequency ` set halves
              else r = peak_frequency best)"

text \<open>
  The octave correction as amended: the candidate near the double (half) frequency is
  the first peak of the sorted list strictly within 0.1 Hz of it; the magnitude tests
  are strict; the half-frequency range test is on the candidate's own frequency.
\<close>

definition amended_octave_result :: "Peak list \<Rightarrow> real" where
  "amended_octave_result peaks =
     (let best = hd peaks;
          fallback =
            (case find (\<lambda>p. \<bar>peak_frequency p - peak_frequency best / 2\<bar> < 1 / 10) peaks of
               None \<Rightarrow> peak_frequency best
             | Some h \<Rightarrow>
                 if peak_value h > 5 / 10 * peak_value best \<and> 60 * peak_frequency best > 120
                    \<and> 50 \<le> 60 * peak_frequency h \<and> 60 * peak_frequency h \<le> 120
                 then peak_frequency h else peak_frequency best)
      in case find (\<lambda>p. \<bar>peak_frequency p - 2 * peak_frequency best\<bar> < 1 / 10) peaks of
           None \<Rightarrow> fallback
         | Some d \<Rightarrow> if peak_value d > 7 / 10 * peak_value best then peak_frequency d else fallback)"


text \<open>
  The delayed display as the specification words it, with \<open>t* = now - 5000\<close>:
  unavailable (\<open>None\<close>) when the nearest record, hence every record, is farther than
  2000 ms from \<open>t*\<close>; otherwise the records with \<open>\<bar>ts - t*\<bar> < 2000\<close> are collected, and
  the rounded mean is emitted unless their standard deviation exceeds 15. When no record
  is collected there is no mean to emit: unavailable. \<open>claimed_display\<close> is what the
  heart-rate element then shows.
\<close>

definition recordsMean :: "HeartRateRecord list \<Rightarrow> real" where
  "recordsMean rs = (\<Sum>r\<leftarrow>rs. real_of_int (rec_value r)) / real (length rs)"

definition recordsStd :: "HeartRateRecord list \<Rightarrow> real" where
  "recordsStd rs =
     sqrt ((\<Sum>r\<leftarrow>rs. (real_of_int (rec_value r) - recordsMean rs) ^ 2) / real (length rs))"

definition claimed_delayed_display :: "int \<Rightarrow> HeartRateRecord list \<Rightarrow> int option" where
  "claimed_delayed_display now history =
     (let target = now - 5000
      in if (\<forall>r \<in> set history. \<bar>timestamp r - target\<bar> > 2000) then None
         else
           let rs = filter (\<lambda>r. \<bar>timestamp r - target\<bar> < 2000) history
           in if rs = [] then None
              else if recordsStd rs > 15 then None else Some (round (recordsMean rs)))"

definition claimed_display :: "int \<Rightarrow> HeartRateRecord list \<Rightarrow> Display" where
  "claimed_display now history =
     (case claimed_delayed_display now history of None \<Rightarrow> Unavailable | Some n \<Rightarrow> Bpm n)"

section \<open>Concrete inputs\<close>

text \<open>
  Magnitude spectra of length 512 for sample rate 30 (bin \<open>i\<close> is \<open>30 i / 512\<close> Hz; the
  band 0.7 to 3.5 Hz is bins 11 to 58). Each is non-negative and symmetric
  (\<open>m[k] = m[512 - k]\<close>), as the magnitude of the transform of a real signal is.
  \<open>flatSpectrum\<close>: magnitude 1 everywhere, 2 at bin 20.
  \<open>plateauSpectrum\<close>: best peak 100 at bin 20; around twice its frequency (bin 40) a
  sharp peak 60 at bin 39 and a peak 71 at bin 41 that falls off slowly.
  \<open>subharmonicSpectrum\<close>: best peak 100 at bin 41; around half its frequency (bin 20.5)
  peaks 60 at bin 19 and 45 at bin 21.
\<close>

definition flatSpectrum :: "real list" where
  "flatSpectrum = replicate 20 1 @ [2] @ replicate 471 1 @ [2] @ replicate 19 1"

definition plateauSpectrum :: "real list" where
  "plateauSpectrum =
     replicate 20 0 @ [100] @ replicate 18 0 @ [60, 0, 71, 70, 69, 68] @ replicate 423 0
       @ [68, 69, 70, 71, 0, 60] @ replicate 18 0 @ [100] @ replicate 19 0"

definition subharmonicSpectrum :: "real list" where
  "subharmonicSpectrum =
     replicate 19 0 @ [60, 0, 45] @ replicate 19 0 @ [100] @ replicate 429 0
       @ [100] @ replicate 19 0 @ [45, 0, 60] @ replicate 18 0"








text \<open>
  Sixty samples for the motion detector: one second alternating between 0 and 20, then
  one second of zeros. \<open>motionState\<close> is the processor after \<open>reset\<close> and these
  samples; \<open>motionCoefficients\<close> stores the coefficients the source uses under
  motion.
\<close>

definition motionSamples :: "real list" where
  "motionSamples =
     [0, 20, 0, 20, 0, 20, 0, 20, 0, 20, 0, 20, 0, 20, 0, 20, 0, 20, 0, 20,
      0, 20, 0, 20, 0, 20, 0, 20, 0, 20,
      0, 0, 0, 0, 0, 0, 0, 0, 0, 0, 0, 0, 0, 0, 0, 0, 0, 0, 0, 0,
      0, 0, 0, 0, 0, 0, 0, 0, 0, 0]"

definition motionState :: SignalProcessor where
  "motionState = fold addDataPoint motionSamples (reset (SignalProcessor_constructor 30))"

definition motionCoefficients :: "SignalProcessor \<Rightarrow> SignalProcessor" where
  "motionCoefficients s = s\<lparr> lowPassAlpha := 1 / 10, highPassAlpha := 99 / 100 \<rparr>"

text \<open>
  Detectors of a session started at time 0, with a given history, for the delayed
  display at \<open>now = 20000\<close> (\<open>t* = 15000\<close>): one record exactly 2000 ms from \<open>t*\<close>; and
  two records inside the window with a third outside.
\<close>

definition boundaryDetector :: HeartRateDetector where
  "boundaryDetector =
     HeartRateDetector_constructor
       \<lparr> heartRateHistory := [\<lparr> rec_value = 60, timestamp = 17000 \<rparr>],
         calibrationStartTime := Some 0 \<rparr>"

definition steadyDetector :: HeartRateDetector where
  "steadyDetector =
     HeartRateDetector_constructor
       \<lparr> heartRateHistory :=
           [\<lparr> rec_value = 60, timestamp = 14500 \<rparr>,
            \<lparr> rec_value = 62, timestamp = 15500 \<rparr>,
            \<lparr> rec_value = 64, timestamp = 19000 \<rparr>],
         calibrationStartTime := Some 0 \<rparr>"

section \<open>Auxiliary facts\<close>

lemma foldl_plus_sum_list: "foldl (\<lambda>total val. total + val) a xs = a + sum_list (xs :: real list)"
  by (induction xs arbitrary: a) simp_all

lemma foldl_plus_map_sum_list:
  "foldl (\<lambda>total val. total + f val) a xs = a + sum_list (map f xs :: real list)"
  by (induction xs arbitrary: a) simp_all

lemma less_mult_sqrt_iff:
  assumes "0 \<le> t" and "0 \<le> v"
  shows "t * sqrt v < a \<longleftrightarrow> 0 < a \<and> t\<^sup>2 * v < a\<^sup>2"
proof (cases "0 < a")
  case True
  have nn: "0 \<le> t * sqrt v" using assms by simp
  have "t * sqrt v < a \<longleftrightarrow> (t * sqrt v)\<^sup>2 < a\<^sup>2"
  proof
    assume "t * sqrt v < a"
    then show "(t * sqrt v)\<^sup>2 < a\<^sup>2"
      using nn by (rule power_strict_mono) simp
  next
    assume "(t * sqrt v)\<^sup>2 < a\<^sup>2"
    then show "t * sqrt v < a"
      using True by (simp add: power2_less_imp_less)
  qed
  also have "(t * sqrt v)\<^sup>2 = t\<^sup>2 * v"
    using assms by (simp add: power_mult_distrib)
  finally show ?thesis using True by simp
next
  case False
  moreover have "0 \<le> t * sqrt v" using assms by simp
  ultimately show ?thesis by linarith
qed

lemma sqrt_eq_numeral: "0 \<le> y \<Longrightarrow> y\<^sup>2 = x \<Longrightarrow> sqrt x = y"
  by (rule real_sqrt_unique) simp_all

lemma snd_calculateHeartRate: "snd (calculateHeartRate s) = snd (getProcessedSignal s)"
  by (simp add: calculateHeartRate_def Let_def split: prod.splits option.splits)

section \<open>Ring buffer\<close>

lemma signalBuffer_addDataPoint:
  "signalBuffer (addDataPoint v s) =
     (if length (signalBuffer s) < bufferSize s then signalBuffer s @ [v]
      else tl (signalBuffer s @ [v]))"
  by (auto simp: addDataPoint_def updateMotionRobustBuffer_def Let_def)

lemma bufferSize_addDataPoint: "bufferSize (addDataPoint v s) = bufferSize s"
  by (simp add: addDataPoint_def updateMotionRobustBuffer_def Let_def)

lemma signalBuffer_fold_addDataPoint:
  "length (signalBuffer s) \<le> bufferSize s \<Longrightarrow>
   signalBuffer (fold addDataPoint xs s) =
     drop (length (signalBuffer s) + length xs - bufferSize s) (signalBuffer s @ xs)"
proof (induction xs arbitrary: s)
  case Nil
  then show ?case by simp
next
  case (Cons x xs)
  let ?s = "addDataPoint x s"
  have len: "length (signalBuffer ?s) \<le> bufferSize ?s"
    using Cons.prems by (auto simp: signalBuffer_addDataPoint bufferSize_addDataPoint)
  show ?case
  proof (cases "length (signalBuffer s) < bufferSize s")
    case True
    then show ?thesis
      using Cons.IH[OF len] by (simp add: signalBuffer_addDataPoint bufferSize_addDataPoint)
  next
    case False
    with Cons.prems have eq: "length (signalBuffer s) = bufferSize s" by simp
    show ?thesis
    proof (cases "signalBuffer s")
      case Nil
      with eq show ?thesis
        using Cons.IH[OF len] by (simp add: signalBuffer_addDataPoint bufferSize_addDataPoint)
    next
      case (Cons b bs)
      with eq show ?thesis
        using Cons.IH[OF len] by (simp add: signalBuffer_addDataPoint bufferSize_addDataPoint)
    qed
  qed
qed

text \<open>
  C8. After \<open>reset\<close> and \<open>k\<close> added samples \<open>xs\<close>, the main buffer is the list of
  the last \<open>min k W\<close> samples in the order they were added, \<open>W = bufferSize\<close>, and
  \<open>W = 450\<close> for the processor built with sample rate 30. One \<open>addDataPoint\<close> appends
  the sample and, when the buffer was full, drops the head, the oldest element.
\<close>

theorem ring_buffer_bound:
  "signalBuffer (fold addDataPoint xs (reset s)) = drop (length xs - bufferSize s) xs
   \<and> length (signalBuffer (fold addDataPoint xs (reset s))) = min (length xs) (bufferSize s)
   \<and> bufferSize (reset (SignalProcessor_constructor 30)) = 450
   \<and> signalBuffer (addDataPoint v s) =
       (if length (signalBuffer s) < bufferSize s then signalBuffer s @ [v]
        else tl (signalBuffer s @ [v]))"
proof -
  have b: "bufferSize (reset s) = bufferSize s" and e: "signalBuffer (reset s) = []"
    by (simp_all add: reset_def)
  have "signalBuffer (fold addDataPoint xs (reset s)) = drop (length xs - bufferSize s) xs"
    using signalBuffer_fold_addDataPoint[of "reset s" xs] by (simp add: b e)
  moreover have "bufferSize (reset (SignalProcessor_constructor 30)) = 450"
    by (simp add: reset_def SignalProcessor_constructor_def)
  ultimately show ?thesis
    by (auto simp: signalBuffer_addDataPoint)
qed

section \<open>Outlier clipping\<close>

lemma signalMean_sum_list: "signalMean xs = sum_list xs / real (length xs)"
  by (simp add: signalMean_def foldl_plus_sum_list)

lemma signalStd_sum_list:
  "signalStd xs = sqrt ((\<Sum>x\<leftarrow>xs. (x - signalMean xs) ^ 2) / real (length xs))"
  by (simp add: signalStd_def foldl_plus_map_sum_list)

lemma signalStd_nonneg: "0 \<le> signalStd xs"
  unfolding signalStd_sum_list
  by (intro real_sqrt_ge_zero divide_nonneg_nonneg sum_list_nonneg) auto

text \<open>
  C7. With \<open>\<mu> = signalMean xs\<close> and \<open>\<sigma> = signalStd xs\<close>, the mean and the
  (population) standard deviation of the input, \<open>removeOutliers xs 2\<close> has the length of
  the input, its element \<open>i\<close> is \<open>\<mu>\<close> when \<open>\<bar>xs ! i - \<mu>\<bar> > 2\<sigma>\<close> and
  \<open>xs ! i\<close> otherwise, and every element \<open>y\<close> of it satisfies \<open>\<bar>y - \<mu>\<bar> \<le> 2\<sigma>\<close>.
\<close>

theorem outlier_clipping:
  assumes "i < length xs"
  shows "length (removeOutliers xs 2) = length xs
     \<and> removeOutliers xs 2 ! i =
         (if \<bar>xs ! i - signalMean xs\<bar> > 2 * signalStd xs then signalMean xs else xs ! i)
     \<and> \<bar>removeOutliers xs 2 ! i - signalMean xs\<bar> \<le> 2 * signalStd xs
     \<and> signalMean xs = sum_list xs / real (length xs)
     \<and> signalStd xs = sqrt ((\<Sum>x\<leftarrow>xs. (x - signalMean xs) ^ 2) / real (length xs))"
proof -
  have n: "removeOutliers xs 2 ! i =
         (if \<bar>xs ! i - signalMean xs\<bar> > 2 * signalStd xs then signalMean xs else xs ! i)"
    using assms by (simp add: removeOutliers_def)
  have "\<bar>removeOutliers xs 2 ! i - signalMean xs\<bar> \<le> 2 * signalStd xs"
    unfolding n using signalStd_nonneg[of xs] by auto
  with n show ?thesis
    using signalMean_sum_list signalStd_sum_list by (simp add: removeOutliers_def)
qed

theorem outlier_clipping_witness:
  "length (removeOutliers [1, 1, 1, 1, 1, 1, 1, 1, 1, 11] 2) = 10
   \<and> removeOutliers [1, 1, 1, 1, 1, 1, 1, 1, 1, 11] 2 ! 9 = 2
   \<and> \<bar>removeOutliers [1, 1, 1, 1, 1, 1, 1, 1, 1, 11] 2 ! 9 - 2\<bar> \<le> 2 * 3"
proof -
  let ?xs = "[1, 1, 1, 1, 1, 1, 1, 1, 1, 11] :: real list"
  have m: "signalMean ?xs = 2" by (simp add: signalMean_def)
  have sd: "signalStd ?xs = 3"
    by (simp add: signalStd_def m sqrt_eq_numeral[of 3])
  show ?thesis
    using outlier_clipping[of 9 ?xs] unfolding m sd by simp
qed

section \<open>Moving average\<close>

lemma foldl_pair_sum_count:
  "foldl (\<lambda>(total, count) j. (total + f j, count + 1)) (a, c) js
     = (a + sum_list (map f js :: real list), c + length js)"
  by (induction js arbitrary: a c) simp_all

lemma movingAverage_nth:
  assumes "i < length xs"
  shows "movingAverage xs w ! i =
      (\<Sum>j = nat (max 0 (int i - int w + 1))..<i + 1. xs ! j)
        / real (i + 1 - nat (max 0 (int i - int w + 1)))"
proof -
  define start where "start = nat (max 0 (int i - int w + 1))"
  have "movingAverage xs w ! i =
      (case foldl (\<lambda>(total, count) j. (total + xs ! j, count + 1)) (0, 0 :: nat) [start..<i + 1]
       of (t, c) \<Rightarrow> t / real c)"
    unfolding movingAverage_def start_def using assms
    by (subst nth_map_upt) (simp_all only: Let_def add_0 minus_nat.diff_0)
  also have "\<dots> = (0 + sum_list (map ((!) xs) [start..<i + 1])) / real (0 + length [start..<i + 1])"
    by (simp only: foldl_pair_sum_count prod.case)
  also have "\<dots> = (\<Sum>j = start..<i + 1. xs ! j) / real (i + 1 - start)"
    by (simp only: interv_sum_list_conv_sum_set_nat add_0 length_upt set_upt)
  finally show ?thesis unfolding start_def .
qed

lemma avg_between:
  fixes f :: "nat \<Rightarrow> real"
  assumes "a < b" and "\<And>j. a \<le> j \<Longrightarrow> j < b \<Longrightarrow> lo \<le> f j \<and> f j \<le> hi"
  shows "lo \<le> (\<Sum>j = a..<b. f j) / real (b - a) \<and> (\<Sum>j = a..<b. f j) / real (b - a) \<le> hi"
proof -
  have pos: "0 < real (b - a)" using assms(1) by simp
  have "real (b - a) * lo \<le> (\<Sum>j = a..<b. f j)"
    using sum_bounded_below[of "{a..<b}" lo f] assms(2) by (simp add: mult.commute)
  moreover have "(\<Sum>j = a..<b. f j) \<le> real (b - a) * hi"
    using sum_bounded_above[of "{a..<b}" f hi] assms(2) by (simp add: mult.commute)
  ultimately show ?thesis
    using pos by (simp add: pos_le_divide_eq pos_divide_le_eq mult.commute)
qed

text \<open>
  C10. For a non-empty signal and a window \<open>w \<ge> 1\<close>, element \<open>i\<close> of
  \<open>movingAverage xs w\<close> is the arithmetic mean of the \<open>min (i + 1) w\<close> input elements
  ending at \<open>i\<close>; it lies between the least and the greatest input element; the output
  has the length of the input.
\<close>

theorem moving_average_mean:
  assumes "xs \<noteq> []" and "1 \<le> w" and "i < length xs"
  shows "length (movingAverage xs w) = length xs
     \<and> movingAverage xs w ! i
          = (\<Sum>j = i + 1 - min (i + 1) w..<i + 1. xs ! j) / real (min (i + 1) w)
     \<and> Min (set xs) \<le> movingAverage xs w ! i
     \<and> movingAverage xs w ! i \<le> Max (set xs)"
proof -
  let ?m = "min (i + 1) w"
  have st: "nat (max 0 (int i - int w + 1)) = i + 1 - ?m"
    using assms(2) by (auto simp: min_def max_def)
  have cnt: "i + 1 - (i + 1 - ?m) = ?m" by auto
  have eq: "movingAverage xs w ! i = (\<Sum>j = i + 1 - ?m..<i + 1. xs ! j) / real ?m"
    using movingAverage_nth[OF assms(3), of w] unfolding st cnt .
  have lt: "i + 1 - ?m < i + 1" using assms(2) by (auto simp: min_def)
  have bnd: "\<And>j. i + 1 - ?m \<le> j \<Longrightarrow> j < i + 1 \<Longrightarrow> Min (set xs) \<le> xs ! j \<and> xs ! j \<le> Max (set xs)"
    using assms(3) by (auto intro!: Min_le Max_ge)
  have "Min (set xs) \<le> (\<Sum>j = i + 1 - ?m..<i + 1. xs ! j) / real (i + 1 - (i + 1 - ?m))
      \<and> (\<Sum>j = i + 1 - ?m..<i + 1. xs ! j) / real (i + 1 - (i + 1 - ?m)) \<le> Max (set xs)"
    by (rule avg_between[OF lt bnd])
  then show ?thesis
    unfolding cnt using eq by (simp add: movingAverage_def)
qed

theorem moving_average_mean_witness:
  "length (movingAverage [3, 6, 9] 2) = 3
   \<and> movingAverage [3, 6, 9] 2 ! 2 = 15 / 2
   \<and> 3 \<le> movingAverage [3, 6, 9] 2 ! 2
   \<and> movingAverage [3, 6, 9] 2 ! 2 \<le> 9"
proof -
  have s: "(\<Sum>j = 1..<3. [3, 6, 9 :: real] ! j) = 15"
    by (simp add: sum.atLeast_Suc_lessThan numeral_3_eq_3)
  show ?thesis
    using moving_average_mean[of "[3, 6, 9]" 2 2] s by simp
qed

section \<open>BPM decision\<close>

lemma claimed_rescue_range:
  "claimed_rescue bpm < 25 \<or> (50 \<le> claimed_rescue bpm \<and> claimed_rescue bpm \<le> 150) \<or> 300 < claimed_rescue bpm"
  unfolding claimed_rescue_def by (simp; linarith)

lemma round_range_iff:
  assumes "v < 25 \<or> (50 \<le> v \<and> v \<le> 150) \<or> 300 < (v::real)"
  shows "(40 \<le> round v \<and> round v \<le> 220) \<longleftrightarrow> (40 \<le> v \<and> v \<le> 220)"
proof -
  consider "v < 25" | "50 \<le> v \<and> v \<le> 150" | "300 < v" using assms by blast
  then show ?thesis
  proof cases
    case 1
    then have "round v \<le> 25" using round_mono[of v 25] by simp
    with 1 show ?thesis by simp
  next
    case 2
    then have "50 \<le> round v" "round v \<le> 150"
      using round_mono[of 50 v] round_mono[of v 150] by simp_all
    with 2 show ?thesis by simp
  next
    case 3
    then have "300 \<le> round v" using round_mono[of 300 v] by simp
    with 3 show ?thesis by simp
  qed
qed

lemma bpmFromPeakFrequency_rescue:
  "bpmFromPeakFrequency f =
     (if 40 \<le> claimed_rescue (60 * f) \<and> claimed_rescue (60 * f) \<le> 220
      then Some (round (claimed_rescue (60 * f))) else None)"
  unfolding bpmFromPeakFrequency_def claimed_rescue_def Let_def
  by (simp add: mult.commute; linarith?)

text \<open>
  Bin 12 (42.2 BPM) is doubled to 84, bin 20 gives 70, bin 44 (154.7 BPM) is halved to
  77, and the "no peak" frequency 0 gives no estimate.
\<close>

lemma bpm_decision_examples:
  "bpmFromPeakFrequency (45 / 64) = Some 84"
  "bpmFromPeakFrequency (75 / 64) = Some 70"
  "bpmFromPeakFrequency (165 / 64) = Some 77"
  "bpmFromPeakFrequency 0 = None"
  by (simp_all add: bpmFromPeakFrequency_def Let_def round_def)

text \<open>
  C1. For every peak frequency \<open>f\<close>, the decision of \<open>calculateHeartRate\<close> on
  \<open>bpm = 60 f\<close> is the specification's: the rescue as worded (\<open>claimed_rescue\<close>), then
  the rounded value is returned iff it lies in \<open>[40, 220]\<close>, else \<open>None\<close>. The source
  tests the range before it rounds; the two orders agree, because a rescued value is
  below 25, in \<open>[50, 150]\<close> or above 300. The last conjunct places the decision in
  \<open>calculateHeartRate\<close>: it is applied to the frequency the spectral estimator selects.
\<close>

theorem bpm_decision:
  "bpmFromPeakFrequency f = claimed_bpm_decision f
   \<and> bpmFromPeakFrequency f =
       (if 40 \<le> claimed_rescue (60 * f) \<and> claimed_rescue (60 * f) \<le> 220
        then Some (round (claimed_rescue (60 * f))) else None)
   \<and> fst (calculateHeartRate s) =
       (case getProcessedSignal s of
          (None, s') \<Rightarrow> None
        | (Some signal, s') \<Rightarrow>
            if length signal < 90 then None
            else bpmFromPeakFrequency
                   (findRobustPeakFrequency s' (magnitudeSpectrum s' signal) (sampleRate s')))"
proof -
  have "bpmFromPeakFrequency f = claimed_bpm_decision f"
    unfolding bpmFromPeakFrequency_rescue claimed_bpm_decision_def Let_def
    using round_range_iff[OF claimed_rescue_range, of "60 * f"] by simp
  moreover have "fst (calculateHeartRate s) =
       (case getProcessedSignal s of
          (None, s') \<Rightarrow> None
        | (Some signal, s') \<Rightarrow>
            if length signal < 90 then None
            else bpmFromPeakFrequency
                   (findRobustPeakFrequency s' (magnitudeSpectrum s' signal) (sampleRate s')))"
    by (simp add: calculateHeartRate_def Let_def split: prod.splits option.splits)
  ultimately show ?thesis
    using bpmFromPeakFrequency_rescue by simp
qed

section \<open>Calibration gate\<close>

lemma updateHeartRate_calibrating:
  assumes "isCalibrating d" and "calibrationStartTime d = Some t0"
    and "now < t0 + calibrationPeriod"
  shows "fst (updateHeartRate now d) =
           Calibrating \<lfloor>real_of_int (now - t0) / real_of_int calibrationPeriod * 100\<rfloor>
       \<and> isCalibrating (snd (updateHeartRate now d))
       \<and> calibrationStartTime (snd (updateHeartRate now d)) = Some t0"
proof -
  obtain hr sp where c: "calculateHeartRate (signalProcessor d) = (hr, sp)"
    by (cases "calculateHeartRate (signalProcessor d)")
  show ?thesis
    using assms by (simp add: updateHeartRate_def c Let_def)
qed

lemma processFrame_calibrating:
  assumes "isCalibrating d" and "calibrationStartTime d = Some t0"
    and "now < t0 + calibrationPeriod"
  shows "fst (processFrame ready now sample d) =
           (if ready \<and> sample \<noteq> None
            then Some (Calibrating \<lfloor>real_of_int (now - t0) / real_of_int calibrationPeriod * 100\<rfloor>)
            else None)
       \<and> isCalibrating (snd (processFrame ready now sample d))
       \<and> calibrationStartTime (snd (processFrame ready now sample d)) = Some t0"
proof (cases "ready \<and> sample \<noteq> None")
  case False
  then show ?thesis
    using assms by (auto simp: processFrame_def Let_def)
next
  case True
  then obtain v where v: "sample = Some v" and r: ready by auto
  let ?d' = "d\<lparr>frameCount := frameCount d + 1,
               signalProcessor := addDataPoint v (signalProcessor d)\<rparr>"
  have "isCalibrating ?d'" "calibrationStartTime ?d' = Some t0"
    using assms by simp_all
  from updateHeartRate_calibrating[OF this assms(3)]
  show ?thesis
    using r v by (simp add: processFrame_def Let_def case_prod_beta)
qed

lemma runFrames_calibrating:
  assumes "isCalibrating d" and "calibrationStartTime d = Some t0"
    and "sorted (map (\<lambda>tick. fst (snd tick)) ticks)"
    and "i < length ticks"
    and "fst (snd (ticks ! i)) < t0 + calibrationPeriod"
  shows "runFrames ticks d ! i =
           (if fst (ticks ! i) \<and> snd (snd (ticks ! i)) \<noteq> None
            then Some (Calibrating
                   \<lfloor>real_of_int (fst (snd (ticks ! i)) - t0) / real_of_int calibrationPeriod * 100\<rfloor>)
            else None)"
  using assms
proof (induction ticks arbitrary: d i)
  case Nil
  then show ?case by simp
next
  case (Cons tick ticks)
  obtain ready now sample where t: "tick = (ready, now, sample)"
    by (cases tick) auto
  show ?case
  proof (cases i)
    case 0
    with Cons.prems t have "now < t0 + calibrationPeriod" by simp
    from processFrame_calibrating[OF Cons.prems(1,2) this, of ready sample]
    show ?thesis using 0 t by (simp add: Let_def case_prod_beta)
  next
    case (Suc j)
    with Cons.prems have j: "j < length ticks"
      and tj: "fst (snd (ticks ! j)) < t0 + calibrationPeriod" by simp_all
    have "now \<le> fst (snd (ticks ! j))"
      using Cons.prems(3) j t by (auto simp: nth_mem)
    with tj have "now < t0 + calibrationPeriod" by simp
    from processFrame_calibrating[OF Cons.prems(1,2) this, of ready sample]
    have c: "isCalibrating (snd (processFrame ready now sample d))"
      and st: "calibrationStartTime (snd (processFrame ready now sample d)) = Some t0"
      by simp_all
    have srt: "sorted (map (\<lambda>tick. fst (snd tick)) ticks)"
      using Cons.prems(3) by simp
    from Cons.IH[OF c st srt j tj]
    show ?thesis using Suc t by (simp add: Let_def case_prod_beta)
  qed
qed

text \<open>
  C6. In a session started at \<open>t0\<close> (\<open>startDetection\<close> on a detector that was not
  detecting) whose ticks have non-decreasing clock values, a tick with
  \<open>now < t0 + 15000\<close> displays the calibration progress when it has a sample and
  displays nothing otherwise, whatever the history holds: never a number of BPM.
\<close>

theorem calibration_gate:
  assumes "\<not> isDetecting d0"
    and "sorted (map (\<lambda>tick. fst (snd tick)) ticks)"
    and "i < length ticks"
    and "ticks ! i = (ready, now, sample)"
    and "now < t0 + 15000"
  shows "calibrationStartTime (startDetection t0 d0) = Some t0
     \<and> runFrames ticks (startDetection t0 d0) ! i =
         (if ready \<and> sample \<noteq> None
          then Some (Calibrating \<lfloor>real_of_int (now - t0) / 15000 * 100\<rfloor>)
          else None)
     \<and> (\<forall>n. runFrames ticks (startDetection t0 d0) ! i \<noteq> Some (Bpm n))"
proof -
  have c: "isCalibrating (startDetection t0 d0)"
    and st: "calibrationStartTime (startDetection t0 d0) = Some t0"
    using assms(1) by (simp_all add: startDetection_def)
  have lt: "fst (snd (ticks ! i)) < t0 + calibrationPeriod"
    using assms(4,5) by (simp add: calibrationPeriod_def)
  from runFrames_calibrating[OF c st assms(2,3) lt]
  show ?thesis
    using st assms(4) by (simp add: calibrationPeriod_def)
qed

theorem calibration_gate_witness:
  "runFrames [(True, 1000, Some 5), (True, 3000, None)] (startDetection 0 HeartRateDetector_constructor) ! 0
     = Some (Calibrating 6)
   \<and> runFrames [(True, 1000, Some 5), (True, 3000, None)] (startDetection 0 HeartRateDetector_constructor) ! 1
     = None"
proof -
  have nd: "\<not> isDetecting HeartRateDetector_constructor"
    by (simp add: HeartRateDetector_constructor_def)
  have s: "sorted (map (\<lambda>tick. fst (snd tick)) [(True, 1000 :: int, Some (5 :: real)), (True, 3000, None)])"
    by simp
  have "runFrames [(True, 1000, Some 5), (True, 3000, None)] (startDetection 0 HeartRateDetector_constructor) ! 0
     = Some (Calibrating \<lfloor>real_of_int (1000 - 0) / 15000 * 100\<rfloor>)"
    using calibration_gate[OF nd s, of 0 True 1000 "Some 5" 0] by simp
  moreover have "\<lfloor>real_of_int (1000 - 0) / 15000 * 100\<rfloor> = (6 :: int)"
    by (simp add: floor_eq_iff)
  moreover have "runFrames [(True, 1000, Some 5), (True, 3000, None)] (startDetection 0 HeartRateDetector_constructor) ! 1
     = None"
    using calibration_gate[OF nd s, of 1 True 3000 None 0] by simp
  ultimately show ?thesis by simp
qed

section \<open>Delayed display\<close>

lemma nearestRecord_step_less:
  "(case foldl (\<lambda>best r.
              let timeDiff = \<bar>timestamp r - targetTime\<bar>
              in case best of
                   None \<Rightarrow> Some (r, timeDiff)
                 | Some (bestRecord, minTimeDiff) \<Rightarrow>
                     if timeDiff < minTimeDiff then Some (r, timeDiff) else best)
           acc history
    of None \<Rightarrow> False | Some (r, m) \<Rightarrow> m < bound)
   \<longleftrightarrow> (case acc of None \<Rightarrow> False | Some (r, m) \<Rightarrow> m < bound)
        \<or> (\<exists>r \<in> set history. \<bar>timestamp r - targetTime\<bar> < bound)"
proof (induction history arbitrary: acc)
  case Nil
  then show ?case by simp
next
  case (Cons x xs)
  show ?case
    unfolding foldl_Cons Cons.IH
    by (auto simp: Let_def split: option.splits)
qed

lemma nearestRecord_less:
  "(case nearestRecord targetTime history of None \<Rightarrow> False | Some (r, m) \<Rightarrow> m < bound)
   \<longleftrightarrow> (\<exists>r \<in> set history. \<bar>timestamp r - targetTime\<bar> < bound)"
  unfolding nearestRecord_def nearestRecord_step_less by simp

lemma getStableHeartRate_stats:
  "getStableHeartRate targetTime d =
     (let rs = filter (\<lambda>r. \<bar>timestamp r - targetTime\<bar> < 2000) (heartRateHistory d)
      in if rs = [] then None
         else if recordsStd rs > 15 then None else Some (round (recordsMean rs)))"
  by (simp add: getStableHeartRate_def Let_def recordsStd_def recordsMean_def
        foldl_plus_sum_list foldl_plus_map_sum_list comp_def)

lemma getDelayedHeartRate_claimed:
  "getDelayedHeartRate now d = claimed_delayed_display now (heartRateHistory d)"
proof (cases "\<exists>r \<in> set (heartRateHistory d). \<bar>timestamp r - (now - 5000)\<bar> < 2000")
  case True
  then have ne: "filter (\<lambda>r. \<bar>timestamp r - (now - 5000)\<bar> < 2000) (heartRateHistory d) \<noteq> []"
    by (auto simp: filter_empty_conv)
  from True have
    "case nearestRecord (now - 5000) (heartRateHistory d) of None \<Rightarrow> False | Some (r, m) \<Rightarrow> m < 2000"
    unfolding nearestRecord_less .
  then have "getDelayedHeartRate now d = getStableHeartRate (now - 5000) d"
    by (auto simp: getDelayedHeartRate_def displayDelay_def Let_def split: option.splits)
  moreover have "\<not> (\<forall>r \<in> set (heartRateHistory d). \<bar>timestamp r - (now - 5000)\<bar> > 2000)"
    using True by (meson not_less_iff_gr_or_eq)
  ultimately show ?thesis
    using ne by (simp add: claimed_delayed_display_def getStableHeartRate_stats Let_def)
next
  case False
  then have
    "\<not> (case nearestRecord (now - 5000) (heartRateHistory d) of None \<Rightarrow> False | Some (r, m) \<Rightarrow> m < 2000)"
    unfolding nearestRecord_less .
  then have "getDelayedHeartRate now d = None"
    by (auto simp: getDelayedHeartRate_def displayDelay_def Let_def split: option.splits)
  moreover have "filter (\<lambda>r. \<bar>timestamp r - (now - 5000)\<bar> < 2000) (heartRateHistory d) = []"
    using False by (auto simp: filter_empty_conv)
  ultimately show ?thesis
    by (simp add: claimed_delayed_display_def Let_def)
qed

lemma bpmFromPeakFrequency_range:
  assumes "bpmFromPeakFrequency f = Some n"
  shows "40 \<le> n \<and> n \<le> 220"
proof -
  from assms obtain v :: real where v: "40 \<le> v" "v \<le> 220" "n = round v"
    unfolding bpmFromPeakFrequency_def Let_def by (auto split: if_splits)
  then show ?thesis
    using round_mono[of 40 v] round_mono[of v 220] by simp
qed

lemma calculateHeartRate_range:
  assumes "fst (calculateHeartRate s) = Some n"
  shows "40 \<le> n \<and> n \<le> 220"
  using assms bpmFromPeakFrequency_range
  by (auto simp: calculateHeartRate_def Let_def split: prod.splits option.splits if_splits)

lemma recordsMean_positive:
  assumes "rs \<noteq> []" and "\<forall>r \<in> set rs. 0 < rec_value r"
  shows "1 \<le> recordsMean rs"
proof -
  have "real (length rs) \<le> (\<Sum>r\<leftarrow>rs. real_of_int (rec_value r))"
    using assms(2)
  proof (induction rs)
    case Nil
    then show ?case by simp
  next
    case (Cons r rs)
    then have "1 \<le> real_of_int (rec_value r)" by auto
    with Cons show ?case by auto
  qed
  moreover have "0 < real (length rs)" using assms(1) by simp
  ultimately show ?thesis
    by (simp add: recordsMean_def pos_le_divide_eq)
qed

lemma claimed_delayed_display_nonzero:
  assumes "\<forall>r \<in> set history. 0 < rec_value r"
  shows "claimed_delayed_display now history \<noteq> Some 0"
proof
  assume z: "claimed_delayed_display now history = Some 0"
  let ?rs = "filter (\<lambda>r. \<bar>timestamp r - (now - 5000)\<bar> < 2000) history"
  from z have ne: "?rs \<noteq> []" and r0: "round (recordsMean ?rs) = 0"
    by (auto simp: claimed_delayed_display_def Let_def split: if_splits)
  have "1 \<le> recordsMean ?rs"
    using ne assms by (intro recordsMean_positive) auto
  then have "1 \<le> round (recordsMean ?rs)"
    using round_mono[of 1 "recordsMean ?rs"] by simp
  with r0 show False by simp
qed

lemma updateHeartRate_history:
  "heartRateHistory (snd (updateHeartRate now d)) =
     (case fst (calculateHeartRate (signalProcessor d)) of
        None \<Rightarrow> heartRateHistory d
      | Some bpm \<Rightarrow>
          filter (\<lambda>r. now - timestamp r < 20000)
            (heartRateHistory d @ [\<lparr> rec_value = bpm, timestamp = now \<rparr>]))"
proof -
  obtain hr sp where c: "calculateHeartRate (signalProcessor d) = (hr, sp)"
    by (cases "calculateHeartRate (signalProcessor d)")
  show ?thesis
  proof (cases hr)
    case None
    then show ?thesis
      by (simp add: updateHeartRate_def c Let_def truthy_def)
  next
    case (Some n)
    then have "n \<noteq> 0"
      using calculateHeartRate_range[of "signalProcessor d" n] c by auto
    with Some show ?thesis
      by (simp add: updateHeartRate_def c Let_def truthy_def calibrationPeriod_def displayDelay_def)
  qed
qed

lemma updateHeartRate_history_positive:
  assumes "\<forall>r \<in> set (heartRateHistory d). 0 < rec_value r"
  shows "\<forall>r \<in> set (heartRateHistory (snd (updateHeartRate now d))). 0 < rec_value r"
proof (cases "fst (calculateHeartRate (signalProcessor d))")
  case None
  then show ?thesis using assms by (simp add: updateHeartRate_history)
next
  case (Some n)
  then have "0 < n" using calculateHeartRate_range[of "signalProcessor d" n] by simp
  with Some assms show ?thesis by (auto simp: updateHeartRate_history)
qed

lemma updateHeartRate_after_calibration:
  assumes "calibrationStartTime d = Some t0" and "t0 + 15000 \<le> now"
  shows "fst (updateHeartRate now d) =
           (let shown = claimed_delayed_display now (heartRateHistory (snd (updateHeartRate now d)))
            in if truthy shown then Bpm (the shown) else Unavailable)"
proof -
  obtain hr sp where c: "calculateHeartRate (signalProcessor d) = (hr, sp)"
    by (cases "calculateHeartRate (signalProcessor d)")
  show ?thesis
    using assms
    by (simp add: updateHeartRate_def c Let_def calibrationPeriod_def getDelayedHeartRate_claimed)
qed

text \<open>
  In every state of a session the start time is the one \<open>startDetection\<close> recorded and
  every record of the history holds a positive value.
\<close>

lemma updateHeartRate_startTime:
  "calibrationStartTime (snd (updateHeartRate now d)) = calibrationStartTime d"
proof -
  obtain hr sp where c: "calculateHeartRate (signalProcessor d) = (hr, sp)"
    by (cases "calculateHeartRate (signalProcessor d)")
  show ?thesis
    by (simp add: updateHeartRate_def c Let_def)
qed

lemma processFrame_history:
  "calibrationStartTime (snd (processFrame ready now sample d)) = calibrationStartTime d
   \<and> ((\<forall>r \<in> set (heartRateHistory d). 0 < rec_value r)
        \<longrightarrow> (\<forall>r \<in> set (heartRateHistory (snd (processFrame ready now sample d))). 0 < rec_value r))"
proof (cases "ready \<and> sample \<noteq> None")
  case False
  then show ?thesis
    by (auto simp: processFrame_def Let_def)
next
  case True
  then obtain v where v: "sample = Some v" and r: ready by auto
  let ?d' = "d\<lparr>frameCount := frameCount d + 1,
               signalProcessor := addDataPoint v (signalProcessor d)\<rparr>"
  have "calibrationStartTime (snd (updateHeartRate now ?d')) = calibrationStartTime d"
    by (simp add: updateHeartRate_startTime)
  moreover have "(\<forall>r \<in> set (heartRateHistory d). 0 < rec_value r)
        \<longrightarrow> (\<forall>r \<in> set (heartRateHistory (snd (updateHeartRate now ?d'))). 0 < rec_value r)"
    using updateHeartRate_history_positive[of ?d' now] by simp
  ultimately show ?thesis
    using r v by (simp add: processFrame_def Let_def case_prod_beta)
qed

lemma session_history:
  assumes "\<not> isDetecting d0"
  shows "calibrationStartTime (sessionState ticks (startDetection t0 d0)) = Some t0
     \<and> (\<forall>r \<in> set (heartRateHistory (sessionState ticks (startDetection t0 d0))). 0 < rec_value r)"
proof -
  have "calibrationStartTime (sessionState ticks d) = calibrationStartTime d
     \<and> ((\<forall>r \<in> set (heartRateHistory d). 0 < rec_value r)
          \<longrightarrow> (\<forall>r \<in> set (heartRateHistory (sessionState ticks d)). 0 < rec_value r))" for d
  proof (induction ticks d rule: sessionState.induct)
    case (1 d)
    then show ?case by simp
  next
    case (2 ready now sample ticks d)
    then show ?case
      using processFrame_history[of ready now sample d] by simp
  qed
  from this[of "startDetection t0 d0"] show ?thesis
    using assms by (simp add: startDetection_def)
qed

text \<open>
  C5. With \<open>t* = now - 5000\<close>, \<open>getDelayedHeartRate\<close> is the claimed computation on
  the history: unavailable when the nearest record is farther than 2000 ms from \<open>t*\<close>,
  otherwise the records within 2000 ms are collected (none collected: unavailable) and
  the rounded mean is returned unless their standard deviation exceeds 15. After
  calibration (\<open>now \<ge> calibrationStart + 15000\<close>) \<open>updateHeartRate\<close> displays exactly
  that, computed on the history as this tick leaves it (the new estimate appended,
  records of 20 s or older dropped). The records of a history are estimates, hence
  positive (lemma \<open>session_history\<close>), so a shown mean is never the 0 that the
  source's truthiness test would hide.
\<close>

theorem delayed_display:
  assumes "calibrationStartTime d = Some t0" and "t0 + 15000 \<le> now"
    and "\<forall>r \<in> set (heartRateHistory d). 0 < rec_value r"
  shows "getDelayedHeartRate now d = claimed_delayed_display now (heartRateHistory d)
     \<and> heartRateHistory (snd (updateHeartRate now d)) =
         (case fst (calculateHeartRate (signalProcessor d)) of
            None \<Rightarrow> heartRateHistory d
          | Some bpm \<Rightarrow>
              filter (\<lambda>r. now - timestamp r < 20000)
                (heartRateHistory d @ [\<lparr> rec_value = bpm, timestamp = now \<rparr>]))
     \<and> fst (updateHeartRate now d)
          = claimed_display now (heartRateHistory (snd (updateHeartRate now d)))"
proof -
  let ?d = "snd (updateHeartRate now d)"
  have nz: "claimed_delayed_display now (heartRateHistory ?d) \<noteq> Some 0"
    by (rule claimed_delayed_display_nonzero[OF updateHeartRate_history_positive[OF assms(3)]])
  have "fst (updateHeartRate now d) = claimed_display now (heartRateHistory ?d)"
    unfolding updateHeartRate_after_calibration[OF assms(1,2)]
    using nz by (auto simp: claimed_display_def truthy_def Let_def split: option.splits)
  then show ?thesis
    using getDelayedHeartRate_claimed updateHeartRate_history by simp
qed

lemma calculateHeartRate_empty: "fst (calculateHeartRate (SignalProcessor_constructor 30)) = None"
  by (simp add: calculateHeartRate_def getProcessedSignal_def SignalProcessor_constructor_def)

theorem delayed_display_witness:
  "getDelayedHeartRate 20000 steadyDetector = Some 61
   \<and> heartRateHistory (snd (updateHeartRate 20000 steadyDetector)) = heartRateHistory steadyDetector
   \<and> fst (updateHeartRate 20000 steadyDetector) = Bpm 61"
proof -
  have st: "calibrationStartTime steadyDetector = Some 0"
    and pos: "\<forall>r \<in> set (heartRateHistory steadyDetector). 0 < rec_value r"
    and sp: "signalProcessor steadyDetector = SignalProcessor_constructor 30"
    by (simp_all add: steadyDetector_def HeartRateDetector_constructor_def)
  have le: "(0::int) + 15000 \<le> 20000" by simp
  have v: "claimed_delayed_display 20000 (heartRateHistory steadyDetector) = Some 61"
    by (simp add: steadyDetector_def claimed_delayed_display_def recordsStd_def recordsMean_def Let_def)
  from delayed_display[OF st le pos]
  show ?thesis
    by (simp add: sp calculateHeartRate_empty v claimed_display_def)
qed

text \<open>
  A nearest record exactly 2000 ms from \<open>t*\<close>: nothing is collected, unavailable.
\<close>

lemma boundary_record_unavailable:
  "claimed_delayed_display 20000 (heartRateHistory boundaryDetector) = None"
  "getDelayedHeartRate 20000 boundaryDetector = None"
  by (simp_all add: getDelayedHeartRate_claimed)
     (simp_all add: boundaryDetector_def claimed_delayed_display_def Let_def)

section \<open>Spectral estimator on the concrete spectra\<close>

lemma length_flatSpectrum: "length flatSpectrum = 512"
  by (simp add: flatSpectrum_def)

lemma length_plateauSpectrum: "length plateauSpectrum = 512"
  by (simp add: plateauSpectrum_def)

lemma length_subharmonicSpectrum: "length subharmonicSpectrum = 512"
  by (simp add: subharmonicSpectrum_def)

lemma bandIndices_512: "length magnitude = 512 \<Longrightarrow> bandIndices magnitude 30 = (11, 59)"
  by (simp add: bandIndices_def Let_def)

lemma detectPeaks_flatSpectrum:
  "detectPeaks flatSpectrum 30 11 59 =
     [\<lparr>peak_index = 20, peak_value = 2, peak_frequency = 75 / 64, peak_sharpness = 1\<rparr>]"
  by (simp add: detectPeaks_def length_flatSpectrum flatSpectrum_def nth_append
        calculatePeakSharpness_def Let_def)

lemma avgMagnitude_flatSpectrum: "avgMagnitude flatSpectrum 11 59 = 49 / 48"
  by (simp add: avgMagnitude_def flatSpectrum_def foldl_plus_sum_list sum_list_replicate)

lemma detectPeaks_plateauSpectrum:
  "detectPeaks plateauSpectrum 30 11 59 =
     [\<lparr>peak_index = 20, peak_value = 100, peak_frequency = 75 / 64, peak_sharpness = 100\<rparr>,
      \<lparr>peak_index = 39, peak_value = 60, peak_frequency = 585 / 256, peak_sharpness = 73 / 2\<rparr>,
      \<lparr>peak_index = 41, peak_value = 71, peak_frequency = 615 / 256, peak_sharpness = 53 / 2\<rparr>]"
  by (simp add: detectPeaks_def length_plateauSpectrum plateauSpectrum_def nth_append
        calculatePeakSharpness_def Let_def)

lemma avgMagnitude_plateauSpectrum: "avgMagnitude plateauSpectrum 11 59 = 438 / 48"
  by (simp add: avgMagnitude_def plateauSpectrum_def foldl_plus_sum_list sum_list_replicate)

lemma detectPeaks_subharmonicSpectrum:
  "detectPeaks subharmonicSpectrum 30 11 59 =
     [\<lparr>peak_index = 19, peak_value = 60, peak_frequency = 285 / 256, peak_sharpness = 105 / 2\<rparr>,
      \<lparr>peak_index = 21, peak_value = 45, peak_frequency = 315 / 256, peak_sharpness = 35\<rparr>,
      \<lparr>peak_index = 41, peak_value = 100, peak_frequency = 615 / 256, peak_sharpness = 100\<rparr>]"
  by (simp add: detectPeaks_def length_subharmonicSpectrum subharmonicSpectrum_def nth_append
        calculatePeakSharpness_def Let_def)

lemma avgMagnitude_subharmonicSpectrum: "avgMagnitude subharmonicSpectrum 11 59 = 205 / 48"
  by (simp add: avgMagnitude_def subharmonicSpectrum_def foldl_plus_sum_list sum_list_replicate)

lemma sortPeaks_plateauSpectrum:
  "sortPeaks (detectPeaks plateauSpectrum 30 11 59) =
     [\<lparr>peak_index = 20, peak_value = 100, peak_frequency = 75 / 64, peak_sharpness = 100\<rparr>,
      \<lparr>peak_index = 39, peak_value = 60, peak_frequency = 585 / 256, peak_sharpness = 73 / 2\<rparr>,
      \<lparr>peak_index = 41, peak_value = 71, peak_frequency = 615 / 256, peak_sharpness = 53 / 2\<rparr>]"
  by (simp add: detectPeaks_plateauSpectrum sortPeaks_def peakScore_def)

lemma sortPeaks_subharmonicSpectrum:
  "sortPeaks (detectPeaks subharmonicSpectrum 30 11 59) =
     [\<lparr>peak_index = 41, peak_value = 100, peak_frequency = 615 / 256, peak_sharpness = 100\<rparr>,
      \<lparr>peak_index = 19, peak_value = 60, peak_frequency = 285 / 256, peak_sharpness = 105 / 2\<rparr>,
      \<lparr>peak_index = 21, peak_value = 45, peak_frequency = 315 / 256, peak_sharpness = 35\<rparr>]"
  by (simp add: detectPeaks_subharmonicSpectrum sortPeaks_def peakScore_def)

lemma find_flat_reset:
  "findRobustPeakFrequency (reset (SignalProcessor_constructor 30)) flatSpectrum 30 = 0"
  by (simp add: findRobustPeakFrequency_def bandIndices_512 length_flatSpectrum
        detectPeaks_flatSpectrum avgMagnitude_flatSpectrum sortPeaks_def reset_def
        SignalProcessor_constructor_def Let_def)

lemma find_flat_constructor:
  "findRobustPeakFrequency (SignalProcessor_constructor 30) flatSpectrum 30 = 75 / 64"
  by (simp add: findRobustPeakFrequency_def bandIndices_512 length_flatSpectrum
        detectPeaks_flatSpectrum avgMagnitude_flatSpectrum sortPeaks_def
        SignalProcessor_constructor_def Let_def octaveCorrection_def doubleFreqPeak_def
        halfFreqPeak_def)

lemma find_plateau:
  "findRobustPeakFrequency (reset (SignalProcessor_constructor 30)) plateauSpectrum 30 = 75 / 64"
  by (simp add: findRobustPeakFrequency_def bandIndices_512 length_plateauSpectrum
        avgMagnitude_plateauSpectrum sortPeaks_plateauSpectrum reset_def
        SignalProcessor_constructor_def Let_def octaveCorrection_def doubleFreqPeak_def
        halfFreqPeak_def)
    (simp add: detectPeaks_plateauSpectrum)?

lemma find_subharmonic:
  "findRobustPeakFrequency (reset (SignalProcessor_constructor 30)) subharmonicSpectrum 30 = 285 / 256"
  by (simp add: findRobustPeakFrequency_def bandIndices_512 length_subharmonicSpectrum
        avgMagnitude_subharmonicSpectrum sortPeaks_subharmonicSpectrum reset_def
        SignalProcessor_constructor_def Let_def octaveCorrection_def doubleFreqPeak_def
        halfFreqPeak_def)
    (simp add: detectPeaks_subharmonicSpectrum)?


section \<open>Octave correction\<close>

lemma octaveCorrection_amended: "octaveCorrection peaks = amended_octave_result peaks"
  by (simp add: octaveCorrection_def amended_octave_result_def doubleFreqPeak_def halfFreqPeak_def
        Let_def mult.commute split: option.splits)

text \<open>
  C2, as amended. When peaks were found and the best peak passes the significance gate,
  \<open>findRobustPeakFrequency\<close> returns \<open>amended_octave_result\<close> of the sorted peaks: the
  frequency of the first peak (in score order) strictly within 0.1 Hz of twice the best
  frequency, if that peak's magnitude exceeds 0.7 of the best; otherwise the frequency
  of the first peak strictly within 0.1 Hz of half the best frequency, if that peak's
  magnitude exceeds 0.5 of the best, \<open>60 f\<^sub>b\<^sub>e\<^sub>s\<^sub>t > 120\<close> and 60 times that peak's own
  frequency lies in \<open>[50, 120]\<close>; otherwise the best frequency.
\<close>

theorem octave_correction_amended:
  assumes "bandIndices magnitude rate = (minIndex, maxIndex)"
    and "peaks = sortPeaks (detectPeaks magnitude rate minIndex maxIndex)"
    and "peaks \<noteq> []"
    and "\<not> peak_value (hd peaks)
            < avgMagnitude magnitude minIndex maxIndex * (15 / 10 + adaptiveThreshold s)"
  shows "findRobustPeakFrequency s magnitude rate = amended_octave_result peaks"
proof -
  have "detectPeaks magnitude rate minIndex maxIndex \<noteq> []"
    using assms(2,3) by (auto simp: sortPeaks_def)
  then show ?thesis
    using assms by (simp add: findRobustPeakFrequency_def Let_def octaveCorrection_amended)
qed

text \<open>
  C2 as stated fails on \<open>plateauSpectrum\<close>: the peak at bin 41 lies within 0.1 Hz of
  twice the best frequency and has magnitude 71, at least 0.7 of the best magnitude 100,
  but the source tests only the peak at bin 39 (higher score, magnitude 60) and returns
  the best frequency.
\<close>

theorem octave_correction_counterexample:
  "detectPeaks plateauSpectrum 30 11 59 \<noteq> []
   \<and> \<not> peak_value (hd (sortPeaks (detectPeaks plateauSpectrum 30 11 59)))
         < avgMagnitude plateauSpectrum 11 59
             * (15 / 10 + adaptiveThreshold (reset (SignalProcessor_constructor 30)))
   \<and> \<not> claimed_octave_result (sortPeaks (detectPeaks plateauSpectrum 30 11 59))
         (findRobustPeakFrequency (reset (SignalProcessor_constructor 30)) plateauSpectrum 30)"
proof -
  have thr: "adaptiveThreshold (reset (SignalProcessor_constructor 30)) = 7 / 10"
    by (simp add: reset_def)
  have "detectPeaks plateauSpectrum 30 11 59 \<noteq> []"
    by (simp add: detectPeaks_plateauSpectrum)
  then show ?thesis
    by (simp add: sortPeaks_plateauSpectrum avgMagnitude_plateauSpectrum find_plateau
          claimed_octave_result_def thr Let_def)
qed

theorem octave_correction_amended_witness:
  "findRobustPeakFrequency (reset (SignalProcessor_constructor 30)) plateauSpectrum 30
     = amended_octave_result
         [\<lparr>peak_index = 20, peak_value = 100, peak_frequency = 75 / 64, peak_sharpness = 100\<rparr>,
          \<lparr>peak_index = 39, peak_value = 60, peak_frequency = 585 / 256, peak_sharpness = 73 / 2\<rparr>,
          \<lparr>peak_index = 41, peak_value = 71, peak_frequency = 615 / 256, peak_sharpness = 53 / 2\<rparr>]
   \<and> amended_octave_result
         [\<lparr>peak_index = 20, peak_value = 100, peak_frequency = 75 / 64, peak_sharpness = 100\<rparr>,
          \<lparr>peak_index = 39, peak_value = 60, peak_frequency = 585 / 256, peak_sharpness = 73 / 2\<rparr>,
          \<lparr>peak_index = 41, peak_value = 71, peak_frequency = 615 / 256, peak_sharpness = 53 / 2\<rparr>]
       = 75 / 64"
proof -
  have b: "bandIndices plateauSpectrum 30 = (11, 59)"
    by (rule bandIndices_512[OF length_plateauSpectrum])
  have g: "\<not> peak_value (hd (sortPeaks (detectPeaks plateauSpectrum 30 11 59)))
         < avgMagnitude plateauSpectrum 11 59
             * (15 / 10 + adaptiveThreshold (reset (SignalProcessor_constructor 30)))"
    by (simp add: sortPeaks_plateauSpectrum avgMagnitude_plateauSpectrum reset_def)
  have n: "sortPeaks (detectPeaks plateauSpectrum 30 11 59) \<noteq> []"
    by (simp add: sortPeaks_plateauSpectrum)
  show ?thesis
    using octave_correction_amended[OF b refl n g]
    by (simp add: sortPeaks_plateauSpectrum amended_octave_result_def)
qed

section \<open>Significance gate\<close>

text \<open>
  Nothing in a session assigns \<open>adaptiveThreshold\<close> after \<open>startDetection\<close> has
  called \<open>reset\<close>: it is 0.7 in every state of the session.
\<close>

lemma adaptiveThreshold_addDataPoint:
  "adaptiveThreshold (addDataPoint v s) = adaptiveThreshold s"
  by (simp add: addDataPoint_def updateMotionRobustBuffer_def Let_def)

lemma adaptiveThreshold_getProcessedSignal:
  "adaptiveThreshold (snd (getProcessedSignal s)) = adaptiveThreshold s"
  by (simp add: getProcessedSignal_def adaptiveSignalProcessing_def Let_def)

lemma adaptiveThreshold_processFrame:
  "adaptiveThreshold (signalProcessor (snd (processFrame ready now sample d)))
     = adaptiveThreshold (signalProcessor d)"
proof -
  have c: "adaptiveThreshold (snd (calculateHeartRate s)) = adaptiveThreshold s" for s
    by (simp add: snd_calculateHeartRate adaptiveThreshold_getProcessedSignal)
  have q: "adaptiveThreshold (getSignalQuality_state s) = adaptiveThreshold s" for s
    by (simp add: getSignalQuality_state_def adaptiveThreshold_getProcessedSignal)
  have u: "adaptiveThreshold (signalProcessor (snd (updateHeartRate now d')))
             = adaptiveThreshold (signalProcessor d')" for d'
    by (simp add: updateHeartRate_def Let_def case_prod_beta c)
  show ?thesis
    by (cases sample) (simp_all add: processFrame_def Let_def case_prod_beta q u adaptiveThreshold_addDataPoint)
qed

lemma adaptiveThreshold_session:
  assumes "\<not> isDetecting d0"
  shows "adaptiveThreshold (signalProcessor (sessionState ticks (startDetection t0 d0))) = 7 / 10"
proof -
  have "adaptiveThreshold (signalProcessor (sessionState ticks d))
          = adaptiveThreshold (signalProcessor d)" for d
    by (induction ticks d rule: sessionState.induct) (simp_all add: adaptiveThreshold_processFrame)
  then show ?thesis
    using assms by (simp add: startDetection_def reset_def)
qed

text \<open>
  C3. The constructor sets \<open>adaptiveThreshold\<close> to 0.3, but \<open>startDetection\<close> calls
  \<open>reset\<close>, which sets it to 0.7. On \<open>flatSpectrum\<close> the best peak has magnitude 2, not
  below \<open>mavg (1.5 + 0.3) = 147/80\<close>: the freshly constructed processor returns the
  peak's frequency, the processor of a started session returns 0, no estimate.
\<close>

theorem significance_gate_after_reset:
  "adaptiveThreshold (SignalProcessor_constructor 30) = 3 / 10
   \<and> adaptiveThreshold (signalProcessor (startDetection 0 HeartRateDetector_constructor)) = 7 / 10
   \<and> peak_value (hd (sortPeaks (detectPeaks flatSpectrum 30 11 59))) = 2
   \<and> avgMagnitude flatSpectrum 11 59 * (15 / 10 + 3 / 10) = 147 / 80
   \<and> findRobustPeakFrequency (SignalProcessor_constructor 30) flatSpectrum 30 = 75 / 64
   \<and> findRobustPeakFrequency
         (signalProcessor (startDetection 0 HeartRateDetector_constructor)) flatSpectrum 30 = 0"
proof -
  have "signalProcessor (startDetection 0 HeartRateDetector_constructor)
          = reset (SignalProcessor_constructor 30)"
    by (simp add: startDetection_def HeartRateDetector_constructor_def)
  moreover have "adaptiveThreshold (reset (SignalProcessor_constructor 30)) = 7 / 10"
    by (simp add: reset_def)
  moreover have "adaptiveThreshold (SignalProcessor_constructor 30) = 3 / 10"
    by (simp add: SignalProcessor_constructor_def)
  ultimately show ?thesis
    by (simp add: find_flat_reset find_flat_constructor avgMagnitude_flatSpectrum
          detectPeaks_flatSpectrum sortPeaks_def)
qed

section \<open>Octave candidates\<close>







section \<open>Adaptive filter coefficients\<close>

lemma addDataPoint_buffers_short:
  assumes "length (signalBuffer s) < bufferSize s"
    and "length (motionRobustBuffer s) < motionDetectionWindow s * sampleRate s"
  shows "addDataPoint v s =
           s\<lparr> signalBuffer := signalBuffer s @ [v], motionRobustBuffer := motionRobustBuffer s @ [v] \<rparr>"
  using assms by (simp add: addDataPoint_def updateMotionRobustBuffer_def Let_def)

lemma fold_addDataPoint_short:
  assumes "length (signalBuffer s) + length xs \<le> bufferSize s"
    and "length (motionRobustBuffer s) + length xs \<le> motionDetectionWindow s * sampleRate s"
  shows "fold addDataPoint xs s =
           s\<lparr> signalBuffer := signalBuffer s @ xs, motionRobustBuffer := motionRobustBuffer s @ xs \<rparr>"
  using assms
proof (induction xs arbitrary: s)
  case Nil
  then show ?case by simp
next
  case (Cons x xs)
  have a: "addDataPoint x s =
           s\<lparr> signalBuffer := signalBuffer s @ [x], motionRobustBuffer := motionRobustBuffer s @ [x] \<rparr>"
    using Cons.prems by (intro addDataPoint_buffers_short) simp_all
  show ?case
    using Cons.prems by (simp add: a Cons.IH)
qed

lemma motionState_eq:
  "motionState =
     (reset (SignalProcessor_constructor 30))
       \<lparr> signalBuffer := motionSamples, motionRobustBuffer := motionSamples \<rparr>"
proof -
  have l: "length motionSamples = 60" by (simp add: motionSamples_def)
  show ?thesis
    unfolding motionState_def
    by (subst fold_addDataPoint_short)
       (simp_all add: l reset_def SignalProcessor_constructor_def)
qed

lemma getProcessedSignal_order:
  assumes "30 \<le> length (signalBuffer s)"
  shows "getProcessedSignal s =
     (Some (movingAverage (bandPassFilter s (removeOutliers (signalBuffer s) 2))
              (if detectMotionArtifacts s then 8 else 5)),
      s\<lparr> lowPassAlpha := (if detectMotionArtifacts s then 1 / 10 else 15 / 100),
         highPassAlpha := (if detectMotionArtifacts s then 99 / 100 else 98 / 100) \<rparr>)"
  using assms by (simp add: getProcessedSignal_def adaptiveSignalProcessing_def Let_def)

lemma detectMotionArtifacts_motionState: "detectMotionArtifacts motionState"
  by (simp add: motionState_eq detectMotionArtifacts_def windowVariances_def windowStarts_def
        calculateVariance_def reset_def SignalProcessor_constructor_def Let_def motionSamples_def)


lemma removeOutliers_motionSamples: "removeOutliers motionSamples 2 = motionSamples"
proof -
  have m: "signalMean motionSamples = 5"
    by (simp add: signalMean_def motionSamples_def)
  have sd: "signalStd motionSamples = sqrt 75"
    by (simp add: signalStd_def m) (simp add: motionSamples_def)
  have c: "\<not> 2 * sqrt 75 < (15 :: real)" "\<not> 2 * sqrt 75 < (5 :: real)"
    by (simp_all add: less_mult_sqrt_iff)
  show ?thesis
    unfolding removeOutliers_def m sd
    by (simp add: motionSamples_def c)
qed

lemma bandPassFilter_second:
  "bandPassFilter s (x0 # x1 # xs) ! 1
     = lowPassAlpha s * (highPassAlpha s * (x0 + x1 - x0)) + (1 - lowPassAlpha s) * x0"
  by (simp add: bandPassFilter_def Let_def)

lemma bandPassFilter_first: "bandPassFilter s (x0 # xs) ! 0 = x0"
  by (simp add: bandPassFilter_def)

lemma length_bandPassFilter: "length (bandPassFilter s xs) = length xs"
proof -
  have h: "length (highPass_loop hp a b ys) = length ys" for hp a b ys
    by (induction ys arbitrary: a b) (simp_all add: Let_def)
  have l: "length (lowPass_loop lp a ys) = length ys" for lp a ys
    by (induction ys arbitrary: a) (simp_all add: Let_def)
  show ?thesis
    by (cases xs) (simp_all add: bandPassFilter_def h l)
qed

lemma movingAverage_second:
  assumes "2 \<le> length xs" and "2 \<le> w"
  shows "movingAverage xs w ! 1 = (xs ! 0 + xs ! 1) / 2"
proof -
  have st: "nat (max 0 (int (1::nat) - int w + 1)) = 0" using assms(2) by simp
  have "movingAverage xs w ! 1 =
      (case foldl (\<lambda>(total, count) j. (total + xs ! j, count + 1)) (0, 0 :: nat) [0..<1 + 1]
       of (t, c) \<Rightarrow> t / real c)"
    unfolding movingAverage_def using assms(1)
    by (subst nth_map_upt) (simp_all only: Let_def add_0 minus_nat.diff_0 st)
  also have "\<dots> = (xs ! 0 + xs ! 1) / 2"
    by (simp add: numeral_2_eq_2)
  finally show ?thesis .
qed

lemma no_motion_below_two_windows:
  assumes "length (motionRobustBuffer s) < 2 * sampleRate s"
  shows "\<not> detectMotionArtifacts s"
proof -
  have "length (windowVariances (motionRobustBuffer s) (sampleRate s)) < 2"
    using assms by (auto simp: windowVariances_def windowStarts_def div_eq_0_iff)
  then show ?thesis
    by (simp add: detectMotionArtifacts_def Let_def)
qed

lemma getProcessedSignal_state_nominal:
  assumes "\<not> detectMotionArtifacts s"
    and "lowPassAlpha s = 15 / 100" and "highPassAlpha s = 98 / 100"
  shows "snd (getProcessedSignal s) = s"
  using assms by (simp add: getProcessedSignal_def adaptiveSignalProcessing_def Let_def)

lemma frame_keeps_nominal:
  assumes "length (motionRobustBuffer s) < 2 * sampleRate s"
    and "lowPassAlpha s = 15 / 100" and "highPassAlpha s = 98 / 100"
  shows "getSignalQuality_state (snd (calculateHeartRate s)) = s"
proof -
  have "snd (getProcessedSignal s) = s"
    using getProcessedSignal_state_nominal[OF no_motion_below_two_windows[OF assms(1)] assms(2,3)] .
  then show ?thesis
    by (simp add: snd_calculateHeartRate getSignalQuality_state_def)
qed

lemma frames_below_two_windows:
  assumes "length (motionRobustBuffer s) + length xs < 2 * sampleRate s"
    and "length (signalBuffer s) + length xs \<le> bufferSize s"
    and "2 * sampleRate s \<le> motionDetectionWindow s * sampleRate s"
    and "lowPassAlpha s = 15 / 100" and "highPassAlpha s = 98 / 100"
  shows "fold (\<lambda>v s. getSignalQuality_state (snd (calculateHeartRate (addDataPoint v s)))) xs s
           = fold addDataPoint xs s"
  using assms
proof (induction xs arbitrary: s)
  case Nil
  then show ?case by simp
next
  case (Cons x xs)
  let ?s = "addDataPoint x s"
  have "length (motionRobustBuffer s) + length (x # xs) < motionDetectionWindow s * sampleRate s"
    using Cons.prems(1,3) by (rule less_le_trans)
  then have lim: "length (motionRobustBuffer s) < motionDetectionWindow s * sampleRate s"
    by simp
  have a: "?s = s\<lparr> signalBuffer := signalBuffer s @ [x], motionRobustBuffer := motionRobustBuffer s @ [x] \<rparr>"
    using Cons.prems(2) lim by (intro addDataPoint_buffers_short) simp_all
  have k: "getSignalQuality_state (snd (calculateHeartRate ?s)) = ?s"
    using Cons.prems by (intro frame_keeps_nominal) (simp_all add: a)
  have "fold (\<lambda>v s. getSignalQuality_state (snd (calculateHeartRate (addDataPoint v s)))) xs ?s
           = fold addDataPoint xs ?s"
    using Cons.prems by (intro Cons.IH) (simp_all add: a)
  then show ?case
    by (simp add: k)
qed

lemma processFrame_processor:
  "signalProcessor (snd (processFrame True now (Some v) d))
     = getSignalQuality_state (snd (calculateHeartRate (addDataPoint v (signalProcessor d))))"
  by (simp add: processFrame_def updateHeartRate_def Let_def case_prod_beta)

lemma motionState_in_session:
  "addDataPoint (motionSamples ! 59)
     (fold (\<lambda>v s. getSignalQuality_state (snd (calculateHeartRate (addDataPoint v s))))
        (take 59 motionSamples)
        (signalProcessor (startDetection 0 HeartRateDetector_constructor)))
   = motionState"
proof -
  let ?r = "reset (SignalProcessor_constructor 30)"
  have st: "signalProcessor (startDetection 0 HeartRateDetector_constructor) = ?r"
    by (simp add: startDetection_def HeartRateDetector_constructor_def)
  have l: "length motionSamples = 60" by (simp add: motionSamples_def)
  have "fold (\<lambda>v s. getSignalQuality_state (snd (calculateHeartRate (addDataPoint v s))))
          (take 59 motionSamples) ?r
        = fold addDataPoint (take 59 motionSamples) ?r"
    by (rule frames_below_two_windows)
       (simp_all add: l reset_def SignalProcessor_constructor_def)
  then have "addDataPoint (motionSamples ! 59)
          (fold (\<lambda>v s. getSignalQuality_state (snd (calculateHeartRate (addDataPoint v s))))
             (take 59 motionSamples) ?r)
        = fold addDataPoint (take 59 motionSamples @ [motionSamples ! 59]) ?r"
    by simp
  also have "take 59 motionSamples @ [motionSamples ! 59] = motionSamples"
    by (simp add: motionSamples_def)
  finally show ?thesis
    unfolding st motionState_def .
qed

text \<open>
  C4. \<open>getProcessedSignal\<close> band-passes with the coefficients stored on the component
  before it evaluates the motion state (lemma \<open>getProcessedSignal_order\<close>). In
  \<open>motionState\<close>, the processor of a session at the request of its 60th frame (lemma
  \<open>motionState_in_session\<close>), motion is detected, yet the band-pass of that request runs
  with the stored 0.15 and 0.98: the second output sample is 147/100, where the motion
  coefficients 0.10 and 0.99 give 99/100. The moving average uses the motion window 8,
  and the motion coefficients are stored for the next request.
\<close>

theorem stale_bandpass_coefficients:
  "length (signalBuffer motionState) = 60
   \<and> detectMotionArtifacts motionState
   \<and> lowPassAlpha motionState = 15 / 100
   \<and> highPassAlpha motionState = 98 / 100
   \<and> fst (getProcessedSignal motionState)
        = Some (movingAverage (bandPassFilter motionState (removeOutliers (signalBuffer motionState) 2)) 8)
   \<and> the (fst (getProcessedSignal motionState)) ! 1 = 147 / 100
   \<and> movingAverage
         (bandPassFilter (motionCoefficients motionState) (removeOutliers (signalBuffer motionState) 2)) 8 ! 1
        = 99 / 100
   \<and> lowPassAlpha (snd (getProcessedSignal motionState)) = 1 / 10
   \<and> highPassAlpha (snd (getProcessedSignal motionState)) = 99 / 100"
proof -
  have buf: "signalBuffer motionState = motionSamples"
    by (simp add: motionState_eq)
  have len: "length (signalBuffer motionState) = 60"
    by (simp add: buf motionSamples_def)
  have lp: "lowPassAlpha motionState = 15 / 100" and hp: "highPassAlpha motionState = 98 / 100"
    by (simp_all add: motionState_eq reset_def)
  note mot = detectMotionArtifacts_motionState
  have g: "getProcessedSignal motionState =
     (Some (movingAverage (bandPassFilter motionState motionSamples) 8),
      motionState\<lparr> lowPassAlpha := 1 / 10, highPassAlpha := 99 / 100 \<rparr>)"
    using getProcessedSignal_order[of motionState] len mot
    by (simp add: buf removeOutliers_motionSamples)
  have two: "2 \<le> length (bandPassFilter s motionSamples)" for s
    by (simp add: length_bandPassFilter motionSamples_def)
  have cons: "motionSamples = 0 # 20 # drop 2 motionSamples"
    by (simp add: motionSamples_def)
  have b0: "bandPassFilter s motionSamples ! 0 = 0" for s
    using bandPassFilter_first[of s 0 "20 # drop 2 motionSamples"] unfolding cons[symmetric] by simp
  have b1: "bandPassFilter s motionSamples ! 1 = lowPassAlpha s * (highPassAlpha s * 20)" for s
    using bandPassFilter_second[of s 0 20 "drop 2 motionSamples"] unfolding cons[symmetric] by simp
  have ma: "movingAverage (bandPassFilter s motionSamples) 8 ! 1
              = (bandPassFilter s motionSamples ! 0 + bandPassFilter s motionSamples ! 1) / 2" for s
    by (rule movingAverage_second[OF two]) simp
  have used: "movingAverage (bandPassFilter motionState motionSamples) 8 ! 1 = 147 / 100"
    unfolding ma b0 b1 lp hp by simp
  have dictated: "movingAverage (bandPassFilter (motionCoefficients motionState) motionSamples) 8 ! 1
                    = 99 / 100"
    unfolding ma b0 b1 by (simp add: motionCoefficients_def)
  show ?thesis
    using len mot lp hp used dictated
    by (simp add: g buf removeOutliers_motionSamples)
qed



end
